theory Spec2Isabelle
  imports Complex_Main "HOL-Library.Word"
begin

section \<open>Values of the source language\<close>

subsection \<open>Strings\<close>

text \<open>
  A TypeScript string is a sequence of UTF-16 code units; \<open>length\<close> and the regular
  expressions of the source (none carries the \<open>u\<close> flag) count and match code units.
  The forbidden characters of the validators (U+0085, U+2028, U+2029) lie beyond one byte,
  so a code unit is a 16-bit word and not a \<open>char\<close>.
\<close>

type_synonym code_unit = "16 word"
type_synonym js_string = "code_unit list"

text \<open>An ASCII literal of the source, written as an Isabelle string.\<close>

definition str :: "string \<Rightarrow> js_string" where
  "str cs = map (\<lambda>c. of_nat (of_char c)) cs"

subsection \<open>Numbers\<close>

text \<open>
  A TypeScript \<open>number\<close> is a finite value, \<open>NaN\<close> or one of the two infinities.
  Finite values are kept exact (every double is a rational); the comparisons \<open><\<close> and
  \<open>>\<close> of the language are false as soon as one side is \<open>NaN\<close>.
\<close>

datatype number = Finite rat | NaN | PosInfinity | NegInfinity

fun num_lt :: "number \<Rightarrow> number \<Rightarrow> bool" where
  "num_lt (Finite a) (Finite b) = (a < b)"
| "num_lt (Finite a) PosInfinity = True"
| "num_lt NegInfinity (Finite b) = True"
| "num_lt NegInfinity PosInfinity = True"
| "num_lt _ _ = False"

definition num_gt :: "number \<Rightarrow> number \<Rightarrow> bool" where
  "num_gt a b = num_lt b a"

text \<open>\<open>Number.isInteger\<close>: finite and without fractional part.\<close>

fun Number_isInteger :: "number \<Rightarrow> bool" where
  "Number_isInteger (Finite q) = (of_int \<lfloor>q\<rfloor> = q)"
| "Number_isInteger _ = False"

text \<open>
  The strict equality \<open>===\<close> of two numbers: \<open>NaN\<close> equals nothing, itself included
  (the two zeros, which it identifies, are one value here).
\<close>

fun num_eq :: "number \<Rightarrow> number \<Rightarrow> bool" where
  "num_eq (Finite a) (Finite b) = (a = b)"
| "num_eq PosInfinity PosInfinity = True"
| "num_eq NegInfinity NegInfinity = True"
| "num_eq _ _ = False"

text \<open>
  The remainder \<open>%\<close>: the dividend less the divisor times the quotient truncated
  towards zero, which is exact on doubles; \<open>NaN\<close> when the dividend is not finite or
  the divisor is zero or \<open>NaN\<close>, the dividend itself when the divisor is infinite.
\<close>

fun num_rem :: "number \<Rightarrow> number \<Rightarrow> number" where
  "num_rem (Finite a) (Finite b) =
     (if b = 0 then NaN
      else Finite (a - b * of_int (if 0 \<le> a / b then \<lfloor>a / b\<rfloor> else \<lceil>a / b\<rceil>)))"
| "num_rem (Finite a) PosInfinity = Finite a"
| "num_rem (Finite a) NegInfinity = Finite a"
| "num_rem _ _ = NaN"

text \<open>
  Rounding to a double. \<open>round_even\<close> is the nearest integer, the even one of the two
  at a tie; \<open>double_of y\<close> is the number with a significand of 53 bits nearest to the real
  \<open>y\<close> (the exponent is left unbounded: a logarithm of a double lies within \<open>\<plusminus>1075\<close>).
\<close>

definition round_even :: "real \<Rightarrow> int" where
  "round_even x =
     (if x - of_int \<lfloor>x\<rfloor> < 1 / 2 then \<lfloor>x\<rfloor>
      else if 1 / 2 < x - of_int \<lfloor>x\<rfloor> then \<lfloor>x\<rfloor> + 1
      else if even \<lfloor>x\<rfloor> then \<lfloor>x\<rfloor> else \<lfloor>x\<rfloor> + 1)"

definition double_of :: "real \<Rightarrow> rat" where
  "double_of y =
     (if y = 0 then 0
      else of_int (round_even (y * 2 powi (52 - \<lfloor>log 2 \<bar>y\<bar>\<rfloor>))) * 2 powi (\<lfloor>log 2 \<bar>y\<bar>\<rfloor> - 52))"

text \<open>
  \<open>Math.log2\<close>, a built-in of the runtime that returns a double: the double nearest to
  the base-2 logarithm of a positive finite number. \<open>Math.log2\<close> of zero is
  \<open>-Infinity\<close>, of a negative number or \<open>NaN\<close> is \<open>NaN\<close>, of \<open>Infinity\<close> is
  \<open>Infinity\<close>.
\<close>

fun Math_log2 :: "number \<Rightarrow> number" where
  "Math_log2 (Finite q) =
     (if q < 0 then NaN else if q = 0 then NegInfinity
      else Finite (double_of (log 2 (real_of_rat q))))"
| "Math_log2 NaN = NaN"
| "Math_log2 PosInfinity = PosInfinity"
| "Math_log2 NegInfinity = NaN"

subsection \<open>Errors\<close>

text \<open>Every \<open>throw new Error(...)\<close> of the source is one constructor.\<close>

datatype error =
    ActiveDirectoryIdError
  | ThroughputCapacityError
  | AliasesError
  | PreferredSubnetIdError
  | DnsIpsError
  | DomainNameError
  | FileSystemAdministratorsGroupError
  | OrganizationalUnitDistinguishedNameError
  | PasswordError
  | UsernameError
  | AuditLogDestinationError
  | StorageCapacityError
  | HourError
  | MinuteError

fun message :: "error \<Rightarrow> string" where
  "message ActiveDirectoryIdError = ''Active Directory ID must begin with the literal d- and should be followed by exactly 10 alphanumeric characters. Allowed alphanumeric values include 0-9 and a-f.''"
| "message ThroughputCapacityError = ''Throughput Capacity must be between 8 and 4096 GiB and a power of 2''"
| "message AliasesError = ''List must not exceed 50 DNS alias names.''"
| "message PreferredSubnetIdError = ''Preferred Subnet ID is required when deploymentType is set to MULTI_AZ_1''"
| "message DnsIpsError = ''List must not exceed 3 DNS IPs.''"
| "message DomainNameError = ''Value must be a valid Domain Name. It must not contain newline, carriage return, line separator or paragraph separator and must not exceed 255 characters limit.''"
| "message FileSystemAdministratorsGroupError = ''Value must be a valid Domain Group. It must not contain newline, carriage return, line separator or paragraph separator and must not exceed 256 characters limit.''"
| "message OrganizationalUnitDistinguishedNameError = ''Value must be a valid fully qualified distinguished name of the organizational unit. It must not contain newline, carriage return, line separator or paragraph separator and must not exceed 2000 characters limit.''"
| "message PasswordError = ''Password must not exceed 256 characters limit.''"
| "message UsernameError = ''Username must not contain newline, carriage return, line separator or paragraph separator and must not exceed 256 characters limit.''"
| "message AuditLogDestinationError = ''Audit Log Destination must be a valid ARN''"
| "message StorageCapacityError = ''storageCapacity must be between 32 and 65536 GiB''"
| "message HourError = ''Maintenance time hour must be an integer between 0 and 24''"
| "message MinuteError = ''Maintenance time minute must be an integer between 0 and 59''"

text \<open>Statements run one after the other: the first one that throws ends the run.\<close>

definition andThen :: "error + unit \<Rightarrow> error + unit \<Rightarrow> error + unit" where
  "andThen a b = (case a of Inl e \<Rightarrow> Inl e | Inr _ \<Rightarrow> b)"

section \<open>Regular expressions\<close>

text \<open>
  The fragment of the regular expressions of the language that the validators use: a
  character, a class of ranges (negated or not), the dot, sequence, alternative and bounded
  repetition. Every pattern of the source is anchored with \<open>^\<close> and \<open>$\<close> and has no
  flag, so \<open>test\<close> holds exactly when the whole string matches; without the \<open>s\<close> flag
  the dot leaves out the four line terminators.
\<close>

datatype rexp =
    Eps
  | Chr code_unit
  | Cls bool "(code_unit \<times> code_unit) list"
  | Dot
  | Seq rexp rexp
  | Alt rexp rexp
  | Rep rexp nat nat

definition in_ranges :: "(code_unit \<times> code_unit) list \<Rightarrow> code_unit \<Rightarrow> bool" where
  "in_ranges rs c = list_ex (\<lambda>(lo, hi). lo \<le> c \<and> c \<le> hi) rs"

definition lineTerminator :: "code_unit \<Rightarrow> bool" where
  "lineTerminator c = (c = 0x0A \<or> c = 0x0D \<or> c = 0x2028 \<or> c = 0x2029)"

text \<open>
  A backtracking matcher: \<open>rems r s\<close> lists what is left of \<open>s\<close> after each way of
  matching \<open>r\<close> at its beginning.
\<close>

fun step :: "(code_unit \<Rightarrow> bool) \<Rightarrow> js_string \<Rightarrow> js_string list" where
  "step P [] = []"
| "step P (c # cs) = (if P c then [cs] else [])"

fun reps :: "(js_string \<Rightarrow> js_string list) \<Rightarrow> nat \<Rightarrow> nat \<Rightarrow> js_string \<Rightarrow> js_string list" where
  "reps f lo 0 s = (if lo = 0 then [s] else [])"
| "reps f lo (Suc hi) s =
     (if lo = 0 then [s] else []) @ concat (map (reps f (lo - 1) hi) (f s))"

fun rems :: "rexp \<Rightarrow> js_string \<Rightarrow> js_string list" where
  "rems Eps s = [s]"
| "rems (Chr c) s = step (\<lambda>x. x = c) s"
| "rems (Cls neg rs) s = step (\<lambda>x. in_ranges rs x \<noteq> neg) s"
| "rems Dot s = step (\<lambda>x. \<not> lineTerminator x) s"
| "rems (Seq r1 r2) s = concat (map (rems r2) (rems r1 s))"
| "rems (Alt r1 r2) s = rems r1 s @ rems r2 s"
| "rems (Rep r lo hi) s = reps (rems r) lo hi s"

definition test :: "rexp \<Rightarrow> js_string \<Rightarrow> bool" where
  "test r s = ([] \<in> set (rems r s))"

definition seqs :: "rexp list \<Rightarrow> rexp" where
  "seqs rs = foldr Seq rs Eps"

definition lit :: "string \<Rightarrow> rexp" where
  "lit cs = seqs (map Chr (str cs))"

text \<open>The strings a pattern denotes, to reason about the matcher.\<close>

fun lang :: "rexp \<Rightarrow> js_string set" where
  "lang Eps = {[]}"
| "lang (Chr c) = {[c]}"
| "lang (Cls neg rs) = {[x] | x. in_ranges rs x \<noteq> neg}"
| "lang Dot = {[x] | x. \<not> lineTerminator x}"
| "lang (Seq r1 r2) = {u @ v | u v. u \<in> lang r1 \<and> v \<in> lang r2}"
| "lang (Alt r1 r2) = lang r1 \<union> lang r2"
| "lang (Rep r lo hi) = {concat us | us. lo \<le> length us \<and> length us \<le> hi \<and> set us \<subseteq> lang r}"

text \<open>Concatenation of two sets of strings.\<close>

definition conc :: "js_string set \<Rightarrow> js_string set \<Rightarrow> js_string set" where
  "conc A B = {u @ v | u v. u \<in> A \<and> v \<in> B}"

section \<open>Time of day: \<open>lib/backup-start-time.ts\<close>\<close>

record BackupStartTimeProps =
  hour :: number
  minute :: number

text \<open>The private fields \<open>hour\<close> and \<open>minute\<close> of the class, both strings.\<close>

record BackupStartTime =
  hourString :: js_string
  minuteString :: js_string

text \<open>
  \<open>validate\<close>: the hour is checked first, the minute only when the hour passed.
\<close>

definition validate :: "number \<Rightarrow> number \<Rightarrow> error + unit" where
  "validate h m =
     (if \<not> Number_isInteger h \<or> num_lt h (Finite 0) \<or> num_gt h (Finite 24) then Inl HourError
      else if \<not> Number_isInteger m \<or> num_lt m (Finite 0) \<or> num_gt m (Finite 59) then Inl MinuteError
      else Inr ())"

text \<open>
  \<open>n.toString()\<close> and the template \<^verbatim>\<open>`0${n}`\<close> on an integer: its decimal digits, with a
  minus sign when negative (exact below \<open>10^21\<close> in magnitude).
\<close>

definition digit :: "nat \<Rightarrow> code_unit" where
  "digit d = of_nat (48 + d)"

fun digits :: "nat \<Rightarrow> js_string" where
  "digits n = (if n < 10 then [digit n] else digits (n div 10) @ [digit (n mod 10)])"

declare digits.simps [simp del]

definition toString :: "int \<Rightarrow> js_string" where
  "toString n = (if n < 0 then 0x2D # digits (nat (- n)) else digits (nat n))"

text \<open>
  \<open>getTwoDigitString\<close>, whose comment reads: assumes the number is a positive integer.
  The constructor calls it after \<open>validate\<close> only, on numbers that are integers, so it
  takes the integer.
\<close>

definition getTwoDigitString :: "int \<Rightarrow> js_string" where
  "getTwoDigitString n =
     (let numberString = toString n
      in if length numberString = 1 then 0x30 # toString n else numberString)"

fun integer_value :: "number \<Rightarrow> int" where
  "integer_value (Finite q) = \<lfloor>q\<rfloor>"
| "integer_value _ = 0"

definition BackupStartTime_new :: "BackupStartTimeProps \<Rightarrow> error + BackupStartTime" where
  "BackupStartTime_new props =
     (case validate (hour props) (minute props) of
        Inl e \<Rightarrow> Inl e
      | Inr _ \<Rightarrow> Inr \<lparr>hourString = getTwoDigitString (integer_value (hour props)),
                       minuteString = getTwoDigitString (integer_value (minute props))\<rparr>)"

definition toTimestamp :: "BackupStartTime \<Rightarrow> js_string" where
  "toTimestamp t = hourString t @ str '':'' @ minuteString t"

section \<open>Weekly maintenance time\<close>

text \<open>
  Modelled from the spec: the \<open>Weekday\<close> enumeration, which the sources import and do not
  hold; its order starts at Monday.
\<close>

datatype Weekday = MONDAY | TUESDAY | WEDNESDAY | THURSDAY | FRIDAY | SATURDAY | SUNDAY

text \<open>
  Modelled from the spec: the 1-based index of a weekday, Monday = 1 to Sunday = 7.
\<close>

fun weekday_index :: "Weekday \<Rightarrow> nat" where
  "weekday_index MONDAY = 1"
| "weekday_index TUESDAY = 2"
| "weekday_index WEDNESDAY = 3"
| "weekday_index THURSDAY = 4"
| "weekday_index FRIDAY = 5"
| "weekday_index SATURDAY = 6"
| "weekday_index SUNDAY = 7"

text \<open>
  Modelled from the spec: the properties of a maintenance time, a weekday with the hour
  and the minute of the backup start time.
\<close>

record MaintenanceTimeProps = BackupStartTimeProps +
  day :: Weekday

text \<open>
  Modelled from the spec: the fields of a maintenance time, kept as strings like those of
  the backup start time.
\<close>

record MaintenanceTime =
  maintenanceDay :: js_string
  maintenanceHour :: js_string
  maintenanceMinute :: js_string

text \<open>
  Modelled from the spec: the constructor of the maintenance time class
  (\<open>windows-maintenance-time.ts\<close> and \<open>lustre-maintenance-time.ts\<close> are not in the
  sources; only the test of the latter is). It shares the check of hour and minute with
  the backup start time and keeps the weekday index unpadded.
\<close>

definition MaintenanceTime_new :: "MaintenanceTimeProps \<Rightarrow> error + MaintenanceTime" where
  "MaintenanceTime_new props =
     (case validate (hour props) (minute props) of
        Inl e \<Rightarrow> Inl e
      | Inr _ \<Rightarrow> Inr \<lparr>maintenanceDay = toString (int (weekday_index (day props))),
                       maintenanceHour = getTwoDigitString (integer_value (hour props)),
                       maintenanceMinute = getTwoDigitString (integer_value (minute props))\<rparr>)"

text \<open>
  Modelled from the spec: the timestamp of a maintenance time, \<open>D:HH:MM\<close>.
\<close>

definition MaintenanceTime_toTimestamp :: "MaintenanceTime \<Rightarrow> js_string" where
  "MaintenanceTime_toTimestamp t =
     maintenanceDay t @ str '':'' @ maintenanceHour t @ str '':'' @ maintenanceMinute t"

section \<open>Configuration records\<close>

datatype WindowsDeploymentType = MULTI_AZ_1 | SINGLE_AZ_1 | SINGLE_AZ_2

datatype WindowsStorageType = SSD | HDD

datatype FileAccessAuditLogLevel =
  FileAccess_DISABLED | FileAccess_SUCCESS_ONLY | FileAccess_FAILURE_ONLY
  | FileAccess_SUCCESS_AND_FAILURE

datatype FileShareAccessAuditLogLevel =
  FileShareAccess_DISABLED | FileShareAccess_SUCCESS_ONLY | FileShareAccess_FAILURE_ONLY
  | FileShareAccess_SUCCESS_AND_FAILURE

record AuditLogConfiguration =
  auditLogDestination :: "js_string option"
  fileAccessAuditLogLevel :: FileAccessAuditLogLevel
  fileShareAccessAuditLogLevel :: FileShareAccessAuditLogLevel

record SelfManagedActiveDirectoryConfiguration =
  dnsIps :: "js_string list option"
  domainName :: "js_string option"
  fileSystemAdministratorsGroup :: "js_string option"
  organizationalUnitDistinguishedName :: "js_string option"
  password :: "js_string option"
  username :: "js_string option"

text \<open>
  \<open>WindowsConfiguration\<close> of \<open>src/unnamed/part_000\<close>. The two time fields hold time
  objects in the caller's configuration and their timestamps in the configuration handed
  to the resource, so their types are parameters. The file
  \<open>lib/windows-file-system.ts\<close> declares \<open>deploymentType\<close>, \<open>storageType\<close> and
  \<open>throughputCapacity\<close> only.
\<close>

record ('b, 'm) WindowsConfiguration =
  deploymentType :: WindowsDeploymentType
  activeDirectoryId :: "js_string option"
  aliases :: "js_string list option"
  auditLogConfiguration :: "AuditLogConfiguration option"
  automaticBackupRetentionDays :: "number option"
  copyTagsToBackups :: "bool option"
  dailyAutomaticBackupStartTime :: "'b option"
  preferredSubnetId :: "js_string option"
  selfManagedActiveDirectoryConfiguration :: "SelfManagedActiveDirectoryConfiguration option"
  storageType :: "WindowsStorageType option"
  throughputCapacity :: number
  weeklyMaintenanceStartTime :: "'m option"

text \<open>
  The collaborators of the construct library, by what the constructor reads of them: a
  security group and a network by their identifiers, a subnet by its \<open>subnetId\<close>, a key
  by its \<open>keyId\<close>. \<open>FileSystemProps\<close> and \<open>FileSystemAttributes\<close> (\<open>file-system.ts\<close>
  is not in the sources) have the fields the two entry points read.
\<close>

type_synonym ISecurityGroup = js_string
type_synonym IVpc = js_string

record ISubnet =
  subnetId :: js_string

record IKey =
  keyId :: js_string

datatype RemovalPolicy = DESTROY | RETAIN | SNAPSHOT

record ('b, 'm) WindowsFileSystemProps =
  windowsConfiguration :: "('b, 'm) WindowsConfiguration"
  vpcSubnet :: ISubnet
  securityGroup :: "ISecurityGroup option"
  vpc :: IVpc
  backupId :: "js_string option"
  kmsKey :: "IKey option"
  storageCapacityGiB :: number
  removalPolicy :: "RemovalPolicy option"

record FileSystemAttributes =
  attr_dnsName :: js_string
  attr_fileSystemId :: js_string
  attr_securityGroup :: ISecurityGroup

section \<open>The field validators of \<open>src/unnamed/part_000\<close>\<close>

text \<open>
  The patterns are built by \<open>new RegExp\<close> from string literals, so the escapes of the
  literal are resolved before the pattern is read: \<open>\u0000\<close>, \<open>\u0085\<close>, \<open>\u2028\<close>,
  \<open>\u2029\<close>, \<open>\r\<close> and \<open>\n\<close> are the characters themselves, and \<open>\d\<close>, which is no
  escape of a string literal, is the letter \<open>d\<close>.
\<close>

text \<open>\<^verbatim>\<open>'^d-[0-9a-f]{10}$'\<close>\<close>

definition activeDirectoryRegex :: rexp where
  "activeDirectoryRegex = seqs [lit ''d-'', Rep (Cls False [(0x30, 0x39), (0x61, 0x66)]) 10 10]"

text \<open>The class \<^verbatim>\<open>[^\u0000\u0085\u2028\u2029\r\n]\<close>.\<close>

definition separators :: "(code_unit \<times> code_unit) list" where
  "separators = [(0x0000, 0x0000), (0x0085, 0x0085), (0x2028, 0x2028), (0x2029, 0x2029),
     (0x000D, 0x000D), (0x000A, 0x000A)]"

text \<open>\<^verbatim>\<open>'^[^\u0000\u0085\u2028\u2029\r\n]{1,255}$'\<close>\<close>

definition domainRegex :: rexp where
  "domainRegex = Rep (Cls True separators) 1 255"

text \<open>\<^verbatim>\<open>'^[^\u0000\u0085\u2028\u2029\r\n]{1,256}$'\<close>\<close>

definition fsAdminGroupRegex :: rexp where
  "fsAdminGroupRegex = Rep (Cls True separators) 1 256"

text \<open>\<^verbatim>\<open>'^[^\u0000\u0085\u2028\u2029\r\n]{1,2000}$'\<close>\<close>

definition ouNameRegex :: rexp where
  "ouNameRegex = Rep (Cls True separators) 1 2000"

text \<open>\<^verbatim>\<open>'^.{1,256}$'\<close>\<close>

definition passwordRegex :: rexp where
  "passwordRegex = Rep Dot 1 256"

text \<open>\<^verbatim>\<open>'^[^\u0000\u0085\u2028\u2029\r\n]{1,256}$'\<close>\<close>

definition usernameRegex :: rexp where
  "usernameRegex = Rep (Cls True separators) 1 256"

text \<open>
  \<^verbatim>\<open>'^arn:[^:]{1,63}:[^:]{0,63}:[^:]{0,63}:(?:|\d{12}):[^/].{0,1023}$'\<close>, where the
  pattern that reaches \<open>RegExp\<close> has \<open>d{12}\<close> for the account: twelve times the letter
  \<open>d\<close> (code unit \<open>0x64\<close>).
\<close>

definition regexARN :: rexp where
  "regexARN = seqs [lit ''arn:'', Rep (Cls True [(0x3A, 0x3A)]) 1 63, lit '':'',
     Rep (Cls True [(0x3A, 0x3A)]) 0 63, lit '':'',
     Rep (Cls True [(0x3A, 0x3A)]) 0 63, lit '':'',
     Alt Eps (Rep (Chr 0x64) 12 12), lit '':'',
     Cls True [(0x2F, 0x2F)], Rep Dot 0 1023]"

text \<open>
  The string \<open>arn:<partition>:<service>:<region>:<account>:<resource>\<close> of the
  specification, from its five segments.
\<close>

definition arn :: "js_string \<Rightarrow> js_string \<Rightarrow> js_string \<Rightarrow> js_string \<Rightarrow> js_string \<Rightarrow> js_string" where
  "arn p sv rg acct res =
     str ''arn:'' @ p @ str '':'' @ sv @ str '':'' @ rg @ str '':'' @ acct @ str '':'' @ res"

text \<open>
  Each validator of an optional string starts with a truthiness guard
  (\<^verbatim>\<open>if (value && !regex.test(value))\<close>): \<open>undefined\<close> and the empty string are both
  falsy and skip the test. The parameters are named \<open>s\<close>, \<open>xs\<close>, \<open>v\<close>, \<open>d\<close>,
  \<open>p\<close> here, the names of the source being those of the record fields.
\<close>

fun validateActiveDirectoryId :: "js_string option \<Rightarrow> error + unit" where
  "validateActiveDirectoryId None = Inr ()"
| "validateActiveDirectoryId (Some s) =
     (if s \<noteq> [] \<and> \<not> test activeDirectoryRegex s
      then Inl ActiveDirectoryIdError else Inr ())"

text \<open>
  \<open>validateThroughputCapacity\<close>:
  \<^verbatim>\<open>if ((throughputCapacity < 8 || throughputCapacity > 4096) || !(Math.log2(throughputCapacity) % 1 === 0))\<close>.
  \<open>lib/windows-file-system.ts\<close> has the same test and the same message but for its
  capitals.
\<close>

definition validateThroughputCapacity :: "number \<Rightarrow> error + unit" where
  "validateThroughputCapacity v =
     (if (num_lt v (Finite 8) \<or> num_gt v (Finite 4096))
         \<or> \<not> num_eq (num_rem (Math_log2 v) (Finite 1)) (Finite 0)
      then Inl ThroughputCapacityError else Inr ())"

text \<open>\<^verbatim>\<open>if (aliases && aliases.length > 50)\<close>: an array, even empty, is truthy.\<close>

fun validateAliases :: "js_string list option \<Rightarrow> error + unit" where
  "validateAliases None = Inr ()"
| "validateAliases (Some xs) = (if length xs > 50 then Inl AliasesError else Inr ())"

text \<open>
  \<open>validatePreferredSubnetId\<close>:
  \<^verbatim>\<open>if (deploymentType === WindowsDeploymentType.MULTI_AZ_1 && preferredSubnetId === undefined)\<close>
\<close>

definition validatePreferredSubnetId ::
  "WindowsDeploymentType \<Rightarrow> js_string option \<Rightarrow> error + unit" where
  "validatePreferredSubnetId d p =
     (if d = MULTI_AZ_1 \<and> p = None
      then Inl PreferredSubnetIdError else Inr ())"

fun validateDnsIps :: "js_string list option \<Rightarrow> error + unit" where
  "validateDnsIps None = Inr ()"
| "validateDnsIps (Some xs) = (if length xs > 3 then Inl DnsIpsError else Inr ())"

fun validateDomainName :: "js_string option \<Rightarrow> error + unit" where
  "validateDomainName None = Inr ()"
| "validateDomainName (Some s) =
     (if s \<noteq> [] \<and> \<not> test domainRegex s
      then Inl DomainNameError else Inr ())"

fun validateFileSystemAdministratorsGroup :: "js_string option \<Rightarrow> error + unit" where
  "validateFileSystemAdministratorsGroup None = Inr ()"
| "validateFileSystemAdministratorsGroup (Some s) =
     (if s \<noteq> [] \<and> \<not> test fsAdminGroupRegex s
      then Inl FileSystemAdministratorsGroupError else Inr ())"

fun validateOrganizationalUnitDistinguishedName :: "js_string option \<Rightarrow> error + unit" where
  "validateOrganizationalUnitDistinguishedName None = Inr ()"
| "validateOrganizationalUnitDistinguishedName (Some s) =
     (if s \<noteq> [] \<and> \<not> test ouNameRegex s
      then Inl OrganizationalUnitDistinguishedNameError else Inr ())"

fun validatePassword :: "js_string option \<Rightarrow> error + unit" where
  "validatePassword None = Inr ()"
| "validatePassword (Some s) =
     (if s \<noteq> [] \<and> \<not> test passwordRegex s then Inl PasswordError else Inr ())"

fun validateUsername :: "js_string option \<Rightarrow> error + unit" where
  "validateUsername None = Inr ()"
| "validateUsername (Some s) =
     (if s \<noteq> [] \<and> \<not> test usernameRegex s then Inl UsernameError else Inr ())"

fun validateARN :: "js_string option \<Rightarrow> error + unit" where
  "validateARN None = Inr ()"
| "validateARN (Some s) =
     (if s \<noteq> [] \<and> \<not> test regexARN s
      then Inl AuditLogDestinationError else Inr ())"

text \<open>
  \<open>validateProps\<close> of \<open>src/unnamed/part_000\<close>: eleven validators in the order of the
  source; \<open>cfg?.field\<close> is \<open>Option.bind\<close>.
\<close>

definition validateProps :: "('b, 'm) WindowsFileSystemProps \<Rightarrow> error + unit" where
  "validateProps props =
     (let cfg = windowsConfiguration props;
          ad = selfManagedActiveDirectoryConfiguration cfg
      in andThen (validateActiveDirectoryId (activeDirectoryId cfg))
        (andThen (validateThroughputCapacity (throughputCapacity cfg))
        (andThen (validateAliases (aliases cfg))
        (andThen (validatePreferredSubnetId (deploymentType cfg) (preferredSubnetId cfg))
        (andThen (validateDnsIps (Option.bind ad dnsIps))
        (andThen (validateDomainName (Option.bind ad domainName))
        (andThen (validateFileSystemAdministratorsGroup (Option.bind ad fileSystemAdministratorsGroup))
        (andThen (validateOrganizationalUnitDistinguishedName
                    (Option.bind ad organizationalUnitDistinguishedName))
        (andThen (validatePassword (Option.bind ad password))
        (andThen (validateUsername (Option.bind ad username))
                 (validateARN (Option.bind (auditLogConfiguration cfg) auditLogDestination))))))))))))"

section \<open>The validators of \<open>lib/windows-file-system.ts\<close>\<close>

text \<open>
  \<open>validateStorageCapacity\<close>:
  \<^verbatim>\<open>if (storageCapacity < 32 || storageCapacity > 65536 )\<close>
\<close>

definition validateStorageCapacity :: "number \<Rightarrow> error + unit" where
  "validateStorageCapacity v =
     (if num_lt v (Finite 32) \<or> num_gt v (Finite 65536)
      then Inl StorageCapacityError else Inr ())"

text \<open>\<open>validateProps\<close> of this file: the throughput, then the storage.\<close>

definition validateProps_lib :: "('b, 'm) WindowsFileSystemProps \<Rightarrow> error + unit" where
  "validateProps_lib props =
     andThen (validateThroughputCapacity (throughputCapacity (windowsConfiguration props)))
             (validateStorageCapacity (storageCapacityGiB props))"

section \<open>The file system construct\<close>

datatype Port = TcpRange nat nat

record Connections =
  securityGroups :: "ISecurityGroup list"
  defaultPort :: Port

record 'w CfnFileSystemProps =
  fileSystemType :: string
  subnetIds :: "js_string list"
  cfn_backupId :: "js_string option"
  kmsKeyId :: "js_string option"
  cfn_windowsConfiguration :: 'w
  securityGroupIds :: "js_string list"
  storageCapacity :: number

text \<open>
  What a constructor does to the construct tree, in the order it does it: the call of the
  base class constructor, the allocation of a security group, an ingress rule, the
  resource with its property tree, the removal policy.
\<close>

datatype 'w event =
    Super js_string
  | NewSecurityGroup string IVpc
  | AddIngressRule ISecurityGroup ISecurityGroup Port
  | NewCfnFileSystem string "'w CfnFileSystemProps"
  | ApplyRemovalPolicy "RemovalPolicy option"

text \<open>
  What the construct library answers: the security group that \<open>new SecurityGroup\<close>
  returns, the \<open>ref\<close> of the resource, the region of the stack and \<open>Aws.URL_SUFFIX\<close>.
\<close>

record Env =
  newSecurityGroup :: ISecurityGroup
  ref :: js_string
  region :: js_string
  URL_SUFFIX :: js_string

record FileSystem =
  connections :: Connections
  dnsName :: js_string
  fileSystemId :: js_string

definition DEFAULT_FILE_SYSTEM_TYPE :: string where
  "DEFAULT_FILE_SYSTEM_TYPE = ''WINDOWS''"

definition DEFAULT_PORT_RANGE :: "nat \<times> nat" where
  "DEFAULT_PORT_RANGE = (988, 1023)"

definition configureConnections :: "ISecurityGroup \<Rightarrow> Connections" where
  "configureConnections sg =
     \<lparr>securityGroups = [sg],
      defaultPort = TcpRange (fst DEFAULT_PORT_RANGE) (snd DEFAULT_PORT_RANGE)\<rparr>"

text \<open>
  \<open>fromWindowsFileSystemAttributes\<close>: \<open>new Import(scope, id)\<close> runs the base class
  constructor and the three field initialisers.
\<close>

definition fromWindowsFileSystemAttributes ::
  "js_string \<Rightarrow> FileSystemAttributes \<Rightarrow> 'w event list \<times> (error + FileSystem)" where
  "fromWindowsFileSystemAttributes ident attrs =
     ([Super ident],
      Inr \<lparr>connections = configureConnections (attr_securityGroup attrs),
           dnsName = attr_dnsName attrs,
           fileSystemId = attr_fileSystemId attrs\<rparr>)"

text \<open>
  The property tree of \<open>src/unnamed/part_000\<close>:
  \<^verbatim>\<open>Object.assign({}, props.windowsConfiguration, updatedWindowsProps)\<close>, every field of the
  configuration with the two times replaced by their timestamps.
\<close>

definition assemble ::
  "(BackupStartTime, MaintenanceTime) WindowsConfiguration \<Rightarrow> (js_string, js_string) WindowsConfiguration" where
  "assemble cfg =
     \<lparr>deploymentType = deploymentType cfg,
      activeDirectoryId = activeDirectoryId cfg,
      aliases = aliases cfg,
      auditLogConfiguration = auditLogConfiguration cfg,
      automaticBackupRetentionDays = automaticBackupRetentionDays cfg,
      copyTagsToBackups = copyTagsToBackups cfg,
      dailyAutomaticBackupStartTime = map_option toTimestamp (dailyAutomaticBackupStartTime cfg),
      preferredSubnetId = preferredSubnetId cfg,
      selfManagedActiveDirectoryConfiguration = selfManagedActiveDirectoryConfiguration cfg,
      storageType = storageType cfg,
      throughputCapacity = throughputCapacity cfg,
      weeklyMaintenanceStartTime =
        map_option MaintenanceTime_toTimestamp (weeklyMaintenanceStartTime cfg)\<rparr>"

text \<open>
  The constructor of \<open>src/unnamed/part_000\<close>. It returns what it did to the construct tree
  up to its end or up to the throw, and the file system or the error.
\<close>

definition WindowsFileSystem_new ::
  "Env \<Rightarrow> js_string \<Rightarrow> (BackupStartTime, MaintenanceTime) WindowsFileSystemProps
   \<Rightarrow> (js_string, js_string) WindowsConfiguration event list \<times> (error + FileSystem)" where
  "WindowsFileSystem_new env ident props =
     (case validateProps props of
        Inl e \<Rightarrow> ([Super ident], Inl e)
      | Inr _ \<Rightarrow>
          (let windowsConfiguration' = assemble (windowsConfiguration props);
               allocated = (case securityGroup props of
                  Some sg \<Rightarrow> []
                | None \<Rightarrow> [NewSecurityGroup ''FsxWindowsSecurityGroup'' (vpc props)]);
               sg = (case securityGroup props of Some sg \<Rightarrow> sg | None \<Rightarrow> newSecurityGroup env);
               port = TcpRange (fst DEFAULT_PORT_RANGE) (snd DEFAULT_PORT_RANGE);
               cfn = \<lparr>fileSystemType = DEFAULT_FILE_SYSTEM_TYPE,
                      subnetIds = [subnetId (vpcSubnet props)],
                      cfn_backupId = backupId props,
                      kmsKeyId = map_option keyId (kmsKey props),
                      cfn_windowsConfiguration = windowsConfiguration',
                      securityGroupIds = [sg],
                      storageCapacity = storageCapacityGiB props\<rparr>
           in ([Super ident] @ allocated @
               [AddIngressRule sg sg port, NewCfnFileSystem ''Resource'' cfn,
                ApplyRemovalPolicy (removalPolicy props)],
               Inr \<lparr>connections = configureConnections sg,
                    dnsName = ref env @ str ''.fsx.'' @ region env @ str ''.'' @ URL_SUFFIX env,
                    fileSystemId = ref env\<rparr>)))"

text \<open>
  The constructor of \<open>lib/windows-file-system.ts\<close>: the same steps, with its own
  \<open>validateProps\<close> and the configuration handed on as it is.
\<close>

definition WindowsFileSystem_new_lib ::
  "Env \<Rightarrow> js_string \<Rightarrow> ('b, 'm) WindowsFileSystemProps
   \<Rightarrow> ('b, 'm) WindowsConfiguration event list \<times> (error + FileSystem)" where
  "WindowsFileSystem_new_lib env ident props =
     (case validateProps_lib props of
        Inl e \<Rightarrow> ([Super ident], Inl e)
      | Inr _ \<Rightarrow>
          (let windowsConfiguration' = windowsConfiguration props;
               allocated = (case securityGroup props of
                  Some sg \<Rightarrow> []
                | None \<Rightarrow> [NewSecurityGroup ''FsxWindowsSecurityGroup'' (vpc props)]);
               sg = (case securityGroup props of Some sg \<Rightarrow> sg | None \<Rightarrow> newSecurityGroup env);
               port = TcpRange (fst DEFAULT_PORT_RANGE) (snd DEFAULT_PORT_RANGE);
               cfn = \<lparr>fileSystemType = DEFAULT_FILE_SYSTEM_TYPE,
                      subnetIds = [subnetId (vpcSubnet props)],
                      cfn_backupId = backupId props,
                      kmsKeyId = map_option keyId (kmsKey props),
                      cfn_windowsConfiguration = windowsConfiguration',
                      securityGroupIds = [sg],
                      storageCapacity = storageCapacityGiB props\<rparr>
           in ([Super ident] @ allocated @
               [AddIngressRule sg sg port, NewCfnFileSystem ''Resource'' cfn,
                ApplyRemovalPolicy (removalPolicy props)],
               Inr \<lparr>connections = configureConnections sg,
                    dnsName = ref env @ str ''.fsx.'' @ region env @ str ''.'' @ URL_SUFFIX env,
                    fileSystemId = ref env\<rparr>)))"

section \<open>Properties\<close>

subsection \<open>Preferred subnet\<close>

text \<open>
  Claim C7. The preferred-subnet validator raises the violation that names the preferred
  subnet exactly when the deployment type is \<open>MULTI_AZ_1\<close> and the preferred subnet id is
  absent; in every other case (another deployment type, with or without an id, or
  \<open>MULTI_AZ_1\<close> with an id) it accepts.
\<close>

theorem validatePreferredSubnetId_iff:
  "(validatePreferredSubnetId d p = Inl PreferredSubnetIdError) = (d = MULTI_AZ_1 \<and> p = None)
   \<and> (validatePreferredSubnetId d p = Inr ()) = (d \<noteq> MULTI_AZ_1 \<or> p \<noteq> None)
   \<and> validatePreferredSubnetId SINGLE_AZ_1 p = Inr ()
   \<and> validatePreferredSubnetId SINGLE_AZ_2 p = Inr ()
   \<and> validatePreferredSubnetId MULTI_AZ_1 (Some i) = Inr ()
   \<and> validatePreferredSubnetId MULTI_AZ_1 None = Inl PreferredSubnetIdError"
  by (simp add: validatePreferredSubnetId_def)

theorem validatePreferredSubnetId_witness:
  "validatePreferredSubnetId MULTI_AZ_1 None = Inl PreferredSubnetIdError
   \<and> validatePreferredSubnetId MULTI_AZ_1 (Some (str ''subnet-1'')) = Inr ()
   \<and> validatePreferredSubnetId SINGLE_AZ_2 None = Inr ()"
  using validatePreferredSubnetId_iff [of MULTI_AZ_1 None "str ''subnet-1''"]
    validatePreferredSubnetId_iff [of SINGLE_AZ_2 None "str ''subnet-1''"]
  by simp

subsection \<open>Throughput capacity\<close>

lemma round_even_error: "\<bar>of_int (round_even x) - x\<bar> \<le> 1 / 2"
  unfolding round_even_def by (auto simp: abs_le_iff)

lemma round_even_of_int: "round_even (of_int m) = m"
  by (simp add: round_even_def)

lemma num_rem_1_zero:
  "num_eq (num_rem n (Finite 1)) (Finite 0) = (\<exists>i. n = Finite (of_int i))"
proof (cases n)
  case (Finite q)
  have "(q - of_int (if 0 \<le> q then \<lfloor>q\<rfloor> else \<lceil>q\<rceil>) = 0) = (\<exists>i. q = of_int i)"
  proof
    assume "q - of_int (if 0 \<le> q then \<lfloor>q\<rfloor> else \<lceil>q\<rceil>) = 0"
    then have "q = of_int (if 0 \<le> q then \<lfloor>q\<rfloor> else \<lceil>q\<rceil>)" by simp
    then show "\<exists>i. q = of_int i" ..
  next
    assume "\<exists>i. q = of_int i"
    then obtain i where "q = of_int i" ..
    then show "q - of_int (if 0 \<le> q then \<lfloor>q\<rfloor> else \<lceil>q\<rceil>) = 0" by simp
  qed
  with Finite show ?thesis by (cases "0 \<le> q") simp_all
qed simp_all

lemma of_rat_powi: "real_of_rat (2 powi z) = 2 powi z"
  by (cases "0 \<le> z") (simp_all add: power_int_def of_rat_power of_rat_inverse of_rat_divide)

lemma powi_pos: "0 < (2::real) powi z"
  by (simp add: zero_less_power_int)

lemma powi_cancel: "(2::real) powi (52 - e) * 2 powi (e - 52) = 1"
proof -
  have "(2::real) powi ((52 - e) + (e - 52)) = 2 powi (52 - e) * 2 powi (e - 52)"
    by (rule power_int_add) simp
  then show ?thesis by simp
qed

lemma powi_half: "(2::real) powi (e - 52) / 2 = 2 powi (e - 53)"
proof -
  have "(2::real) powi ((e - 53) + 1) = 2 powi (e - 53) * 2"
    by (rule power_int_add_1) simp
  moreover have "(e - 53) + 1 = e - 52" by simp
  ultimately show ?thesis by simp
qed

lemma double_of_error:
  assumes "y \<noteq> 0"
  shows "\<bar>real_of_rat (double_of y) - y\<bar> \<le> 2 powi (\<lfloor>log 2 \<bar>y\<bar>\<rfloor> - 53)"
proof -
  define e where "e = \<lfloor>log 2 \<bar>y\<bar>\<rfloor>"
  define m where "m = round_even (y * 2 powi (52 - e))"
  have d: "real_of_rat (double_of y) = of_int m * 2 powi (e - 52)"
    using assms by (simp add: double_of_def e_def m_def of_rat_mult of_rat_powi)
  have "\<bar>of_int m - y * 2 powi (52 - e)\<bar> \<le> 1 / 2"
    unfolding m_def by (rule round_even_error)
  then have "\<bar>of_int m - y * 2 powi (52 - e)\<bar> * 2 powi (e - 52) \<le> 1 / 2 * 2 powi (e - 52)"
    using powi_pos [of "e - 52"] by (intro mult_right_mono) simp_all
  moreover have "\<bar>of_int m - y * 2 powi (52 - e)\<bar> * 2 powi (e - 52)
      = \<bar>of_int m * 2 powi (e - 52) - y * (2 powi (52 - e) * 2 powi (e - 52))\<bar>"
  proof -
    have "\<bar>of_int m - y * 2 powi (52 - e)\<bar> * 2 powi (e - 52)
      = \<bar>of_int m - y * 2 powi (52 - e)\<bar> * \<bar>2 powi (e - 52)\<bar>"
      using powi_pos [of "e - 52"] by simp
    also have "\<dots> = \<bar>(of_int m - y * 2 powi (52 - e)) * 2 powi (e - 52)\<bar>"
      by (simp only: abs_mult)
    also have "(of_int m - y * 2 powi (52 - e)) * 2 powi (e - 52)
      = of_int m * 2 powi (e - 52) - y * (2 powi (52 - e) * 2 powi (e - 52))"
      by (simp only: left_diff_distrib mult.assoc)
    finally show ?thesis .
  qed
  ultimately have "\<bar>of_int m * 2 powi (e - 52) - y\<bar> \<le> 2 powi (e - 52) / 2"
    by (simp add: powi_cancel)
  then show ?thesis unfolding d powi_half e_def .
qed


lemma powr_near_one:
  fixes d \<delta> :: real
  assumes "\<bar>d\<bar> \<le> \<delta>" "\<delta> \<le> 1 / 2"
  shows "1 - \<delta> \<le> 2 powr d" and "2 powr d \<le> 1 + 2 * \<delta>"
proof -
  from assms have d0: "0 \<le> \<delta>" by linarith
  have l: "0 < ln (2::real)" "ln (2::real) < 1" using ln_2_less_1 by simp_all
  have e: "(2::real) powr d = exp (d * ln 2)" by (simp add: powr_def)
  have "d * ln 2 \<le> \<bar>d\<bar> * ln 2" using l by (intro mult_right_mono) simp_all
  also have "\<dots> \<le> \<delta> * ln 2" using assms l by (intro mult_right_mono) simp_all
  also have "\<dots> \<le> \<delta> * 1" using d0 l by (intro mult_left_mono) simp_all
  finally have u: "d * ln 2 \<le> \<delta>" by simp
  then have "exp (d * ln 2) \<le> exp \<delta>" by simp
  also have "\<dots> \<le> 1 + 2 * \<delta>" using d0 assms(2) by (rule real_exp_bound_lemma)
  finally show "2 powr d \<le> 1 + 2 * \<delta>" unfolding e .
  have "- \<delta> * 1 \<le> - \<delta> * ln 2" using d0 l by (intro mult_left_mono_neg) simp_all
  also have "\<dots> = - (\<delta> * ln 2)" by simp
  also have "\<dots> \<le> - (\<bar>d\<bar> * ln 2)" using assms l by (simp add: mult_right_mono)
  also have "\<dots> \<le> d * ln 2"
  proof -
    have "- \<bar>d\<bar> \<le> d" by simp
    then have "- \<bar>d\<bar> * ln 2 \<le> d * ln 2" using l by (intro mult_right_mono) simp_all
    then show ?thesis by simp
  qed
  finally have "1 - \<delta> \<le> 1 + d * ln 2" by simp
  also have "\<dots> \<le> exp (d * ln 2)" by (rule exp_ge_add_one_self)
  finally show "1 - \<delta> \<le> 2 powr d" unfolding e .
qed

lemma log2_less_4:
  fixes y :: real
  assumes "0 < y" "y < 16"
  shows "log 2 y < 4"
proof -
  have "(2::real) powr 4 = 16" by simp
  with assms log_less_iff [of 2 y 4] show ?thesis by simp
qed

lemma floor_log_le_3:
  fixes y :: real
  assumes "0 < y" "y < 16"
  shows "\<lfloor>log 2 \<bar>y\<bar>\<rfloor> \<le> 3"
proof -
  from log2_less_4 [OF assms] have "\<lfloor>log 2 y\<rfloor> < 4" by (simp only: floor_less_iff of_int_numeral)
  with assms(1) show ?thesis by simp
qed

lemma powi_m50: "(2::real) powi (- 50) = 1 / 2 ^ 50"
  by (simp only: power_int_minus_divide power_int_numeral)

lemma double_of_error_50:
  assumes "0 < y" "y < 16"
  shows "\<bar>real_of_rat (double_of y) - y\<bar> \<le> 1 / 2 ^ 50"
proof -
  from assms have "y \<noteq> 0" by simp
  from double_of_error [OF this]
  have "\<bar>real_of_rat (double_of y) - y\<bar> \<le> 2 powi (\<lfloor>log 2 \<bar>y\<bar>\<rfloor> - 53)" .
  also have "\<dots> \<le> 2 powi (- 50)"
    using floor_log_le_3 [OF assms] by (intro power_int_increasing) simp_all
  finally show ?thesis unfolding powi_m50 .
qed

lemma validateThroughputCapacity_Inr:
  "(validateThroughputCapacity (Finite q) = Inr ()) =
     (8 \<le> q \<and> q \<le> 4096 \<and> (\<exists>i. double_of (log 2 (real_of_rat q)) = of_int i))"
proof (cases "8 \<le> q \<and> q \<le> 4096")
  case True
  then have "\<not> q < 0" "q \<noteq> 0" by simp_all
  then have "Math_log2 (Finite q) = Finite (double_of (log 2 (real_of_rat q)))" by simp
  with True show ?thesis
    by (simp add: validateThroughputCapacity_def num_gt_def num_rem_1_zero not_less
        del: Math_log2.simps num_rem.simps num_eq.simps)
next
  case False
  then show ?thesis by (auto simp: validateThroughputCapacity_def num_gt_def not_less)
qed

lemma log2_range:
  fixes x :: real
  assumes "8 \<le> x" "x \<le> 4096"
  shows "3 \<le> log 2 x" and "log 2 x \<le> 12"
proof -
  have p: "(2::real) powr 3 = 8" "(2::real) powr 12 = 4096" by simp_all
  from assms have pos: "0 < x" by simp
  from assms p le_log_iff [of 2 x 3] pos show "3 \<le> log 2 x" by simp
  from assms p log_le_iff [of 2 x 12] pos show "log 2 x \<le> 12" by simp
qed

lemma of_rat_abs_real: "real_of_rat \<bar>r\<bar> = \<bar>real_of_rat r\<bar>"
proof (cases "0 \<le> r")
  case True
  then have "0 \<le> real_of_rat r" by simp
  with True show ?thesis by simp
next
  case False
  then have "real_of_rat r < 0" by simp
  with False show ?thesis by (simp add: of_rat_minus)
qed

lemma accepted_near:
  assumes "validateThroughputCapacity (Finite q) = Inr ()"
  shows "8 \<le> q \<and> q \<le> 4096 \<and> (\<exists>k. 3 \<le> k \<and> k \<le> 12 \<and> \<bar>q - 2 ^ k\<bar> \<le> 2 ^ k / 2 ^ 49)"
proof -
  define x where "x = real_of_rat q"
  define y where "y = log 2 x"
  from assms obtain i where q: "8 \<le> q" "q \<le> 4096" and i: "double_of y = of_int i"
    unfolding validateThroughputCapacity_Inr x_def y_def by blast
  from q have "real_of_rat 8 \<le> x" "x \<le> real_of_rat 4096"
    unfolding x_def by (simp_all only: of_rat_less_eq)
  then have x: "8 \<le> x" "x \<le> 4096" by simp_all
  then have xpos: "0 < x" by simp
  from log2_range [OF x] have y: "3 \<le> y" "y \<le> 12" unfolding y_def by simp_all
  then have "0 < y" "y < 16" by simp_all
  from double_of_error_50 [OF this] i have err: "\<bar>real_of_int i - y\<bar> \<le> 1 / 2 ^ 50" by simp
  have small: "(1::real) / 2 ^ 50 < 1" by simp
  from err y small have "2 < real_of_int i" "real_of_int i < 13" by linarith+
  then have ir: "3 \<le> i" "i \<le> 12" by linarith+
  define k where "k = nat i"
  from ir have k: "3 \<le> k" "k \<le> 12" "real_of_int i = real k" unfolding k_def by simp_all
  define d where "d = y - real k"
  from err k(3) have dd: "\<bar>d\<bar> \<le> 1 / 2 ^ 50" unfolding d_def by (simp add: abs_minus_commute)
  have half: "(1::real) / 2 ^ 50 \<le> 1 / 2" by simp
  from xpos have "x = 2 powr y" unfolding y_def by simp
  also have "\<dots> = 2 powr (real k + d)" unfolding d_def by simp
  also have "\<dots> = 2 ^ k * 2 powr d" by (simp add: powr_add powr_realpow)
  finally have xe: "x = 2 ^ k * 2 powr d" .
  have pk: "0 < (2::real) ^ k" by simp
  from powr_near_one [OF dd half]
  have lo: "1 - 1 / 2 ^ 50 \<le> 2 powr d" and hi: "2 powr d \<le> 1 + 2 * (1 / 2 ^ 50)" by simp_all
  define a where "a = (2::real) ^ k / 2 ^ 49"
  define b where "b = (2::real) ^ k / 2 ^ 50"
  have ab: "b \<le> a" unfolding a_def b_def by (intro divide_left_mono) simp_all
  have b2: "(2::real) ^ k * (1 - 1 / 2 ^ 50) = 2 ^ k - b" unfolding b_def by (simp only: right_diff_distrib mult_1_right times_divide_eq_right)
  have a2: "(2::real) ^ k * (1 + 2 * (1 / 2 ^ 50)) = 2 ^ k + a"
  proof -
    have "(2::real) * (1 / 2 ^ 50) = 1 / 2 ^ 49" by simp
    then show ?thesis unfolding a_def by (simp only: distrib_left mult_1_right times_divide_eq_right)
  qed
  from lo pk have "2 ^ k * (1 - 1 / 2 ^ 50) \<le> 2 ^ k * 2 powr d" by (intro mult_left_mono) simp_all
  then have l1: "2 ^ k - b \<le> x" unfolding xe b2 .
  from hi pk have "2 ^ k * 2 powr d \<le> 2 ^ k * (1 + 2 * (1 / 2 ^ 50))" by (intro mult_left_mono) simp_all
  then have h1: "x \<le> 2 ^ k + a" unfolding xe a2 .
  from l1 h1 ab have "\<bar>x - 2 ^ k\<bar> \<le> a" by linarith
  then have "\<bar>x - 2 ^ k\<bar> \<le> 2 ^ k / 2 ^ 49" unfolding a_def .
  then have "real_of_rat \<bar>q - 2 ^ k\<bar> \<le> real_of_rat (2 ^ k / 2 ^ 49)"
  proof -
    have "real_of_rat \<bar>q - 2 ^ k\<bar> = \<bar>x - 2 ^ k\<bar>"
      unfolding x_def by (simp add: of_rat_abs_real of_rat_diff of_rat_power)
    moreover have "real_of_rat (2 ^ k / 2 ^ 49) = 2 ^ k / 2 ^ 49"
      by (simp only: of_rat_divide of_rat_power of_rat_numeral_eq)
    ultimately show ?thesis using \<open>\<bar>x - 2 ^ k\<bar> \<le> 2 ^ k / 2 ^ 49\<close> by (simp only:)
  qed
  then have "\<bar>q - 2 ^ k\<bar> \<le> 2 ^ k / 2 ^ 49" by (simp only: of_rat_less_eq)
  with q k show ?thesis by blast
qed

lemma powi_cancel_rat: "(2::rat) powi (52 - e) * 2 powi (e - 52) = 1"
proof -
  have "(2::rat) powi ((52 - e) + (e - 52)) = 2 powi (52 - e) * 2 powi (e - 52)"
    by (rule power_int_add) simp
  then show ?thesis by simp
qed

lemma double_of_int:
  assumes "0 < j" "j < 16"
  shows "double_of (of_int j) = of_int j"
proof -
  define e where "e = \<lfloor>log 2 \<bar>real_of_int j\<bar>\<rfloor>"
  from assms have y: "0 < real_of_int j" "real_of_int j < 16" by simp_all
  from floor_log_le_3 [OF y] have e: "e \<le> 3" unfolding e_def .
  define n where "n = nat (52 - e)"
  from e have pn: "(2::real) powi (52 - e) = 2 ^ n" "(2::rat) powi (52 - e) = 2 ^ n"
    unfolding n_def by (simp_all add: power_int_def)
  have "real_of_int j * 2 powi (52 - e) = of_int (j * 2 ^ n)" unfolding pn by simp
  then have r: "round_even (real_of_int j * 2 powi (52 - e)) = j * 2 ^ n"
    by (simp only: round_even_of_int)
  from y have "double_of (of_int j) = of_int (j * 2 ^ n) * 2 powi (e - 52)"
    unfolding double_of_def e_def [symmetric] r by simp
  also have "\<dots> = of_int j * ((2::rat) powi (52 - e) * 2 powi (e - 52))"
    unfolding pn by simp
  finally show ?thesis unfolding powi_cancel_rat by simp
qed

lemma accepted_pow2:
  assumes "3 \<le> k" "k \<le> 12"
  shows "validateThroughputCapacity (Finite (2 ^ k)) = Inr ()"
proof -
  have "log 2 (real_of_rat (2 ^ k)) = real k" by (simp add: of_rat_power)
  also have "\<dots> = real_of_int (int k)" by simp
  finally have l: "log 2 (real_of_rat (2 ^ k)) = real_of_int (int k)" .
  from assms have "0 < int k" "int k < 16" by simp_all
  from double_of_int [OF this] l
  have "double_of (log 2 (real_of_rat (2 ^ k))) = of_int (int k)" by (simp only:)
  then have "\<exists>i. double_of (log 2 (real_of_rat (2 ^ k))) = of_int i" ..
  moreover have "(8::rat) = 2 ^ 3" "(4096::rat) = 2 ^ 12" by simp_all
  then have "8 \<le> (2::rat) ^ k \<and> (2::rat) ^ k \<le> 4096"
    using assms by (simp only: power_increasing_iff one_less_numeral_iff semiring_norm)
  ultimately show ?thesis unfolding validateThroughputCapacity_Inr by blast
qed

lemma near_int_eq:
  assumes "k \<le> 12" "\<bar>rat_of_int i - 2 ^ k\<bar> \<le> 2 ^ k / 2 ^ 49"
  shows "i = 2 ^ k"
proof -
  have "(2::rat) ^ k \<le> 2 ^ 12" using assms(1) by (intro power_increasing) simp_all
  then have "(2::rat) ^ k / 2 ^ 49 \<le> 2 ^ 12 / 2 ^ 49" by (intro divide_right_mono) simp_all
  also have "\<dots> < 1" by simp
  finally have "\<bar>rat_of_int i - 2 ^ k\<bar> < 1" using assms(2) by simp
  moreover have "rat_of_int i - 2 ^ k = rat_of_int (i - 2 ^ k)" by simp
  ultimately have "\<bar>rat_of_int (i - 2 ^ k)\<bar> < 1" by (simp only:)
  then have "\<bar>i - 2 ^ k\<bar> < 1" by (simp only: of_int_abs [symmetric] of_int_less_1_iff)
  then show ?thesis by simp
qed

lemma validateThroughputCapacity_int:
  "(validateThroughputCapacity (Finite (of_int i)) = Inr ()) = (\<exists>k. 3 \<le> k \<and> k \<le> 12 \<and> i = 2 ^ k)"
proof
  assume "validateThroughputCapacity (Finite (of_int i)) = Inr ()"
  from accepted_near [OF this] obtain k where k: "3 \<le> k" "k \<le> 12"
    "\<bar>rat_of_int i - 2 ^ k\<bar> \<le> 2 ^ k / 2 ^ 49" by blast
  from near_int_eq [OF k(2,3)] k show "\<exists>k. 3 \<le> k \<and> k \<le> 12 \<and> i = 2 ^ k" by blast
next
  assume "\<exists>k. 3 \<le> k \<and> k \<le> 12 \<and> i = 2 ^ k"
  then obtain k where k: "3 \<le> k" "k \<le> 12" "i = 2 ^ k" by blast
  from accepted_pow2 [OF k(1,2)] k(3) show "validateThroughputCapacity (Finite (of_int i)) = Inr ()"
    by simp
qed






lemma validateThroughputCapacity_cases:
  "validateThroughputCapacity v = Inr () \<or> validateThroughputCapacity v = Inl ThroughputCapacityError"
  by (simp add: validateThroughputCapacity_def)

lemma not_pow2_between:
  fixes q :: "'a :: linordered_idom"
  assumes "2 ^ j < q" "q < 2 ^ Suc j"
  shows "\<not> (\<exists>k::nat. q = 2 ^ k)"
proof
  assume "\<exists>k::nat. q = 2 ^ k"
  then obtain k :: nat where k: "q = 2 ^ k" ..
  from assms(1) k have "j < k" by (simp add: power_strict_increasing_iff)
  moreover from assms(2) k have "k < Suc j"
    by (simp only: power_strict_increasing_iff one_less_numeral_iff semiring_norm)
  ultimately show False by simp
qed

text \<open>
  The values of the test of the construct (\<open>src/unnamed/part_001\<close>): 8, 64, 512 and 4096
  pass; 7, 9, 4095 and 4097 raise.
\<close>

lemma validateThroughputCapacity_tests:
  "validateThroughputCapacity (Finite 8) = Inr ()"
  "validateThroughputCapacity (Finite 64) = Inr ()"
  "validateThroughputCapacity (Finite 512) = Inr ()"
  "validateThroughputCapacity (Finite 4096) = Inr ()"
  "validateThroughputCapacity (Finite 7) = Inl ThroughputCapacityError"
  "validateThroughputCapacity (Finite 9) = Inl ThroughputCapacityError"
  "validateThroughputCapacity (Finite 4095) = Inl ThroughputCapacityError"
  "validateThroughputCapacity (Finite 4097) = Inl ThroughputCapacityError"
proof -
  have acc: "validateThroughputCapacity (Finite (of_int (2 ^ k))) = Inr ()" if "3 \<le> k" "k \<le> 12" for k :: nat
    using that validateThroughputCapacity_int [of "2 ^ k"] by blast
  have rej: "validateThroughputCapacity (Finite (of_int i)) = Inl ThroughputCapacityError"
    if "(2::int) ^ j < i" "i < 2 ^ Suc j" for i j
    using not_pow2_between [OF that] validateThroughputCapacity_int [of i]
      validateThroughputCapacity_cases [of "Finite (of_int i)"] by blast
  from acc [of 3] show "validateThroughputCapacity (Finite 8) = Inr ()" by simp
  from acc [of 6] show "validateThroughputCapacity (Finite 64) = Inr ()" by simp
  from acc [of 9] show "validateThroughputCapacity (Finite 512) = Inr ()" by simp
  from acc [of 12] show "validateThroughputCapacity (Finite 4096) = Inr ()" by simp
  from rej [of 2 7] show "validateThroughputCapacity (Finite 7) = Inl ThroughputCapacityError" by simp
  from rej [of 3 9] show "validateThroughputCapacity (Finite 9) = Inl ThroughputCapacityError" by simp
  from rej [of 11 4095] show "validateThroughputCapacity (Finite 4095) = Inl ThroughputCapacityError" by simp
  from rej [of 12 4097] show "validateThroughputCapacity (Finite 4097) = Inl ThroughputCapacityError" by simp
qed






subsection \<open>The matcher and the strings of a pattern\<close>

lemma set_step: "set (step P s) = {v. \<exists>c. P c \<and> s = c # v}"
  by (cases s) auto

lemma set_reps:
  assumes f: "\<And>s. set (f s) = {v. \<exists>u. u \<in> L \<and> s = u @ v}"
  shows "set (reps f lo hi s) =
    {v. \<exists>us. lo \<le> length us \<and> length us \<le> hi \<and> set us \<subseteq> L \<and> s = concat us @ v}"
proof (induction hi arbitrary: lo s)
  case 0
  show ?case by auto
next
  case (Suc hi)
  show ?case (is "?l = ?r")
  proof (intro equalityI subsetI)
    fix v assume "v \<in> ?l"
    then consider "lo = 0" "v = s" | w where "w \<in> set (f s)" "v \<in> set (reps f (lo - 1) hi w)"
      by (auto split: if_splits)
    then show "v \<in> ?r"
    proof cases
      case 1
      then have "lo \<le> length ([]::js_string list) \<and> length ([]::js_string list) \<le> Suc hi
        \<and> set ([]::js_string list) \<subseteq> L \<and> s = concat [] @ v" by simp
      then show ?thesis by blast
    next
      case 2
      from 2(1) f obtain u where u: "u \<in> L" "s = u @ w" by auto
      from 2(2) Suc.IH obtain us where us: "lo - 1 \<le> length us" "length us \<le> hi"
        "set us \<subseteq> L" "w = concat us @ v" by auto
      from u us have "lo \<le> length (u # us) \<and> length (u # us) \<le> Suc hi
        \<and> set (u # us) \<subseteq> L \<and> s = concat (u # us) @ v" by auto
      then show ?thesis by blast
    qed
  next
    fix v assume "v \<in> ?r"
    then obtain us where us: "lo \<le> length us" "length us \<le> Suc hi" "set us \<subseteq> L"
      "s = concat us @ v" by auto
    show "v \<in> ?l"
    proof (cases us)
      case Nil
      with us show ?thesis by simp
    next
      case (Cons u us')
      with us have "concat us' @ v \<in> set (f s)" using f by auto
      moreover from Cons us have "lo - 1 \<le> length us' \<and> length us' \<le> hi \<and> set us' \<subseteq> L
          \<and> concat us' @ v = concat us' @ v" by auto
      then have "v \<in> set (reps f (lo - 1) hi (concat us' @ v))"
        unfolding Suc.IH by blast
      ultimately show ?thesis by auto
    qed
  qed
qed

lemma set_rems: "set (rems r s) = {v. \<exists>u. u \<in> lang r \<and> s = u @ v}"
proof (induction r arbitrary: s)
  case (Seq r1 r2)
  show ?case by (auto simp: Seq) (metis append.assoc)+
next
  case (Rep r lo hi)
  have "set (rems (Rep r lo hi) s) = {v. \<exists>us. lo \<le> length us \<and> length us \<le> hi
      \<and> set us \<subseteq> lang r \<and> s = concat us @ v}"
    using set_reps [of "rems r" "lang r" lo hi s] Rep by simp
  then show ?case by auto
qed (auto simp: set_step)

lemma test_lang: "test r s = (s \<in> lang r)"
  by (simp add: test_def set_rems)

lemma lang_Seq: "lang (Seq r1 r2) = conc (lang r1) (lang r2)"
  by (simp add: conc_def)

lemma lang_seqs_Nil: "lang (seqs []) = {[]}"
  by (simp add: seqs_def)

lemma lang_seqs_Cons: "lang (seqs (r # rs)) = conc (lang r) (lang (seqs rs))"
  by (simp add: seqs_def conc_def)

lemma conc_single: "(s \<in> conc {w} B) = (\<exists>v. s = w @ v \<and> v \<in> B)"
  by (auto simp: conc_def)

lemma conc_eps: "conc A {[]} = A"
  by (auto simp: conc_def)

lemma lang_chars: "lang (seqs (map Chr cs)) = {cs}"
  by (induction cs) (auto simp: lang_seqs_Nil lang_seqs_Cons conc_def)

lemma lang_lit: "lang (lit w) = {str w}"
  by (simp add: lit_def lang_chars)

lemma concat_singletons:
  assumes "\<forall>u\<in>set us. \<exists>x. u = [x] \<and> P x"
  shows "length (concat us) = length us \<and> (\<forall>c\<in>set (concat us). P c)"
  using assms by (induction us) auto

lemma lang_Rep_chars:
  assumes r: "lang r = {[x] | x. P x}"
  shows "lang (Rep r lo hi) = {s. lo \<le> length s \<and> length s \<le> hi \<and> (\<forall>c\<in>set s. P c)}"
proof (intro equalityI subsetI)
  fix s assume "s \<in> lang (Rep r lo hi)"
  then obtain us where us: "s = concat us" "lo \<le> length us" "length us \<le> hi" "set us \<subseteq> lang r"
    by auto
  from us(4) r have "\<forall>u\<in>set us. \<exists>x. u = [x] \<and> P x" by auto
  from concat_singletons [OF this] us
  show "s \<in> {s. lo \<le> length s \<and> length s \<le> hi \<and> (\<forall>c\<in>set s. P c)}" by simp
next
  fix s assume "s \<in> {s. lo \<le> length s \<and> length s \<le> hi \<and> (\<forall>c\<in>set s. P c)}"
  then have s: "lo \<le> length s" "length s \<le> hi" "\<forall>c\<in>set s. P c" by auto
  let ?us = "map (\<lambda>c. [c]) s"
  have "s = concat ?us" by (induction s) auto
  moreover have "set ?us \<subseteq> lang r" using s(3) r by auto
  ultimately have "s = concat ?us \<and> lo \<le> length ?us \<and> length ?us \<le> hi \<and> set ?us \<subseteq> lang r"
    using s by simp
  then show "s \<in> lang (Rep r lo hi)" unfolding lang.simps by blast
qed

lemma lang_Rep_Cls:
  "lang (Rep (Cls neg rs) lo hi) =
     {s. lo \<le> length s \<and> length s \<le> hi \<and> (\<forall>c\<in>set s. in_ranges rs c \<noteq> neg)}"
  by (rule lang_Rep_chars) simp

lemma lang_Rep_Dot:
  "lang (Rep Dot lo hi) = {s. lo \<le> length s \<and> length s \<le> hi \<and> (\<forall>c\<in>set s. \<not> lineTerminator c)}"
  by (rule lang_Rep_chars) simp

lemma lang_Rep_Chr:
  "lang (Rep (Chr d) n n) = {replicate n d}"
proof -
  have "lang (Rep (Chr d) n n) = {s. n \<le> length s \<and> length s \<le> n \<and> (\<forall>c\<in>set s. c = d)}"
    by (rule lang_Rep_chars) auto
  also have "\<dots> = {replicate n d}"
    by (auto simp: replicate_length_same [symmetric] intro!: replicate_eqI)
  finally show ?thesis .
qed

subsection \<open>Domain name\<close>

lemma in_separators:
  "in_ranges separators c = (c \<in> {0x0000, 0x0085, 0x2028, 0x2029, 0x000D, 0x000A})"
  by (auto simp: in_ranges_def separators_def)

lemma test_Rep_separators:
  "test (Rep (Cls True separators) lo hi) s =
     (lo \<le> length s \<and> length s \<le> hi
      \<and> (\<forall>c\<in>set s. c \<notin> {0x0000, 0x0085, 0x2028, 0x2029, 0x000D, 0x000A}))"
proof -
  have "test (Rep (Cls True separators) lo hi) s =
     (lo \<le> length s \<and> length s \<le> hi \<and> (\<forall>c\<in>set s. in_ranges separators c \<noteq> True))"
    unfolding test_lang lang_Rep_Cls by blast
  then show ?thesis unfolding in_separators by blast
qed

lemma validateDomainName_Some:
  "validateDomainName (Some s) =
     (if s = [] \<or> (length s \<le> 255
          \<and> (\<forall>c\<in>set s. c \<notin> {0x0000, 0x0085, 0x2028, 0x2029, 0x000D, 0x000A}))
      then Inr () else Inl DomainNameError)"
proof (cases "s = []")
  case True
  then show ?thesis by simp
next
  case False
  then have "1 \<le> length s" by (cases s) simp_all
  with False show ?thesis
    unfolding validateDomainName.simps domainRegex_def test_Rep_separators by simp
qed

text \<open>
  Claim C8, as amended. The domain-name validator accepts an absent name and the empty
  string (its guard \<open>domainName &&\<close> is false on both), and accepts a non-empty name
  exactly when it has at most 255 code units and none of them is U+0000, U+0085, U+2028,
  U+2029, carriage return or line feed; it raises the domain-name violation on every other
  name, that is on a non-empty one that is longer or holds one of these characters.
\<close>

theorem validateDomainName_iff:
  "validateDomainName None = Inr ()
   \<and> (validateDomainName (Some s) = Inr ()) =
       (s = [] \<or> (length s \<le> 255
          \<and> (\<forall>c\<in>set s. c \<notin> {0x0000, 0x0085, 0x2028, 0x2029, 0x000D, 0x000A})))
   \<and> (validateDomainName (Some s) = Inl DomainNameError) =
       (s \<noteq> [] \<and> (255 < length s
          \<or> (\<exists>c\<in>set s. c \<in> {0x0000, 0x0085, 0x2028, 0x2029, 0x000D, 0x000A})))"
proof -
  let ?S = "{0x0000, 0x0085, 0x2028, 0x2029, 0x000D, 0x000A} :: code_unit set"
  let ?ok = "s = [] \<or> (length s \<le> 255 \<and> (\<forall>c\<in>set s. c \<notin> ?S))"
  have neg: "(\<not> ?ok) = (s \<noteq> [] \<and> (255 < length s \<or> (\<exists>c\<in>set s. c \<in> ?S)))"
    by (simp only: not_le [symmetric]) blast
  have v: "validateDomainName (Some s) = (if ?ok then Inr () else Inl DomainNameError)"
    by (rule validateDomainName_Some)
  show ?thesis
  proof (cases ?ok)
    case True
    with v have "validateDomainName (Some s) = Inr ()" by (simp only: if_True)
    with True neg show ?thesis by simp
  next
    case False
    with v have "validateDomainName (Some s) = Inl DomainNameError" by (simp only: if_False)
    with False neg show ?thesis by simp
  qed
qed

text \<open>
  The empty string is a present domain name of length 0, and the validator accepts it.
\<close>

theorem validateDomainName_empty_accepted: "validateDomainName (Some []) = Inr ()"
  by simp

theorem validateDomainName_witness:
  "validateDomainName (Some (str ''corp.example.com'')) = Inr ()
   \<and> validateDomainName (Some []) = Inr ()
   \<and> validateDomainName (Some [0x61, 0x000A, 0x62]) = Inl DomainNameError
   \<and> validateDomainName (Some (replicate 256 0x61)) = Inl DomainNameError"
proof -
  have a: "validateDomainName (Some (str ''corp.example.com'')) = Inr ()" by code_simp
  have b: "validateDomainName (Some []) = Inr ()"
    using validateDomainName_iff [of "[]"] by simp
  have "[0x61, 0x000A, 0x62] \<noteq> ([]::js_string)
     \<and> (255 < length [0x61, 0x000A, 0x62::code_unit]
        \<or> (\<exists>c\<in>set [0x61, 0x000A, 0x62::code_unit]. c \<in> {0x0000, 0x0085, 0x2028, 0x2029, 0x000D, 0x000A}))"
    by simp
  with validateDomainName_iff [of "[0x61, 0x000A, 0x62]"]
  have c: "validateDomainName (Some [0x61, 0x000A, 0x62]) = Inl DomainNameError" by blast
  have "replicate 256 0x61 \<noteq> ([]::js_string)
     \<and> (255 < length (replicate 256 (0x61::code_unit))
        \<or> (\<exists>c\<in>set (replicate 256 (0x61::code_unit)). c \<in> {0x0000, 0x0085, 0x2028, 0x2029, 0x000D, 0x000A}))"
    by simp
  with validateDomainName_iff [of "replicate 256 0x61"]
  have d: "validateDomainName (Some (replicate 256 0x61)) = Inl DomainNameError" by blast
  from a b c d show ?thesis by simp
qed

subsection \<open>Audit log destination\<close>

lemma str_colon: "str '':'' = [0x3A]"
  by (simp add: str_def)

lemma conc_prefix: "(w @ v \<in> conc {w} B) = (v \<in> B)"
  by (simp add: conc_single)

lemma split_unique:
  "c \<notin> set p \<Longrightarrow> c \<notin> set u \<Longrightarrow> p @ c # r = u @ c # t \<Longrightarrow> p = u \<and> r = t"
proof (induction p arbitrary: u)
  case Nil
  then show ?case by (cases u) auto
next
  case (Cons a p)
  then show ?case by (cases u) auto
qed

lemma conc_seg:
  assumes p: "c \<notin> set p" and A: "\<forall>u\<in>A. c \<notin> set u"
  shows "(p @ c # r \<in> conc A (conc {[c]} T)) = (p \<in> A \<and> r \<in> T)"
proof
  assume "p @ c # r \<in> conc A (conc {[c]} T)"
  then obtain u t where u: "u \<in> A" and t: "t \<in> T" and e: "p @ c # r = u @ c # t"
    by (auto simp: conc_def)
  from A u have cu: "c \<notin> set u" by blast
  from p cu e have "p = u \<and> r = t" by (rule split_unique)
  with u t show "p \<in> A \<and> r \<in> T" by simp
next
  assume "p \<in> A \<and> r \<in> T"
  then have "p \<in> A" "[c] @ r \<in> conc {[c]} T" by (simp_all add: conc_prefix del: append.simps)
  then show "p @ c # r \<in> conc A (conc {[c]} T)" by (auto simp: conc_def)
qed

lemma in_ranges_single: "in_ranges [(a, a)] x = (x = a)"
  by (auto simp: in_ranges_def)

lemma lang_not_colon:
  "lang (Rep (Cls True [(0x3A, 0x3A)]) lo hi) =
     {s. lo \<le> length s \<and> length s \<le> hi \<and> 0x3A \<notin> set s}"
  unfolding lang_Rep_Cls in_ranges_single by auto

lemma lang_account: "lang (Alt Eps (Rep (Chr 0x64) 12 12)) = {[], replicate 12 0x64}"
  unfolding lang.simps(6) lang_Rep_Chr by auto

lemma conc_chars: "conc {[x] | x. P x} B = {x # v | x v. P x \<and> v \<in> B}"
proof (intro equalityI subsetI)
  fix s assume "s \<in> conc {[x] | x. P x} B"
  then show "s \<in> {x # v | x v. P x \<and> v \<in> B}" by (auto simp: conc_def)
next
  fix s assume "s \<in> {x # v | x v. P x \<and> v \<in> B}"
  then obtain x v where "s = [x] @ v" "P x" "v \<in> B" by auto
  then have "\<exists>u w. s = u @ w \<and> u \<in> {[x] | x. P x} \<and> w \<in> B" by blast
  then show "s \<in> conc {[x] | x. P x} B" unfolding conc_def by blast
qed

lemma lang_resource:
  "conc (lang (Cls True [(0x2F, 0x2F)])) (conc (lang (Rep Dot 0 1023)) {[]}) =
     {res. res \<noteq> [] \<and> hd res \<noteq> 0x2F \<and> length res \<le> 1024
        \<and> (\<forall>x\<in>set (tl res). \<not> lineTerminator x)}"
proof -
  have "conc (lang (Cls True [(0x2F, 0x2F)])) (conc (lang (Rep Dot 0 1023)) {[]}) =
     {c # t | c t. c \<noteq> 0x2F \<and> length t \<le> 1023 \<and> (\<forall>x\<in>set t. \<not> lineTerminator x)}"
    unfolding conc_eps lang_Rep_Dot lang.simps(3) conc_chars by (auto simp: in_ranges_single)
  also have "\<dots> = {res. res \<noteq> [] \<and> hd res \<noteq> 0x2F \<and> length res \<le> 1024
        \<and> (\<forall>x\<in>set (tl res). \<not> lineTerminator x)}"
  proof (intro equalityI subsetI)
    fix res assume "res \<in> {c # t | c t. c \<noteq> 0x2F \<and> length t \<le> 1023 \<and> (\<forall>x\<in>set t. \<not> lineTerminator x)}"
    then show "res \<in> {res. res \<noteq> [] \<and> hd res \<noteq> 0x2F \<and> length res \<le> 1024
        \<and> (\<forall>x\<in>set (tl res). \<not> lineTerminator x)}" by auto
  next
    fix res assume a: "res \<in> {res. res \<noteq> [] \<and> hd res \<noteq> 0x2F \<and> length res \<le> 1024
        \<and> (\<forall>x\<in>set (tl res). \<not> lineTerminator x)}"
    then obtain c t where "res = c # t" by (cases res) auto
    with a show "res \<in> {c # t | c t. c \<noteq> 0x2F \<and> length t \<le> 1023 \<and> (\<forall>x\<in>set t. \<not> lineTerminator x)}"
      by auto
  qed
  finally show ?thesis .
qed

lemma lang_regexARN:
  "lang regexARN =
     conc {str ''arn:''}
       (conc (lang (Rep (Cls True [(0x3A, 0x3A)]) 1 63)) (conc {[0x3A]}
       (conc (lang (Rep (Cls True [(0x3A, 0x3A)]) 0 63)) (conc {[0x3A]}
       (conc (lang (Rep (Cls True [(0x3A, 0x3A)]) 0 63)) (conc {[0x3A]}
       (conc (lang (Alt Eps (Rep (Chr 0x64) 12 12))) (conc {[0x3A]}
       (conc (lang (Cls True [(0x2F, 0x2F)])) (conc (lang (Rep Dot 0 1023)) {[]}))))))))))"
  unfolding regexARN_def lang_seqs_Cons lang_seqs_Nil lang_lit str_colon ..

lemma test_regexARN_arn:
  assumes "0x3A \<notin> set p" "0x3A \<notin> set sv" "0x3A \<notin> set rg" "0x3A \<notin> set acct"
  shows "test regexARN (arn p sv rg acct res) =
    (1 \<le> length p \<and> length p \<le> 63 \<and> length sv \<le> 63 \<and> length rg \<le> 63
     \<and> (acct = [] \<or> acct = replicate 12 0x64)
     \<and> res \<noteq> [] \<and> hd res \<noteq> 0x2F \<and> length res \<le> 1024
     \<and> (\<forall>x\<in>set (tl res). \<not> lineTerminator x))"
proof -
  have nc: "\<And>lo hi. \<forall>u\<in>lang (Rep (Cls True [(0x3A, 0x3A)]) lo hi). 0x3A \<notin> set u"
    unfolding lang_not_colon by simp
  have na: "\<forall>u\<in>lang (Alt Eps (Rep (Chr 0x64) 12 12)). 0x3A \<notin> set u"
    unfolding lang_account by simp
  have e: "arn p sv rg acct res =
     str ''arn:'' @ (p @ 0x3A # (sv @ 0x3A # (rg @ 0x3A # (acct @ 0x3A # res))))"
    by (simp add: arn_def str_colon)
  show ?thesis
    unfolding test_lang lang_regexARN e conc_prefix
      conc_seg [OF assms(1) nc] conc_seg [OF assms(2) nc] conc_seg [OF assms(3) nc]
      conc_seg [OF assms(4) na] lang_resource
    unfolding lang_not_colon lang_account
    using assms by simp
qed

lemma test_regexARN_prefix:
  assumes "test regexARN s"
  shows "take 4 s = str ''arn:''"
proof -
  from assms obtain v where "s = str ''arn:'' @ v"
    unfolding test_lang lang_regexARN conc_single by blast
  then show ?thesis by (simp add: str_def)
qed

lemma validateARN_cases:
  "validateARN a = Inr () \<or> validateARN a = Inl AuditLogDestinationError"
  by (cases a) simp_all

text \<open>
  Claim C2, as amended. The audit-log-destination validator accepts an absent destination
  and the empty string. For colon-free partition, service and region, it accepts
  \<open>arn:<partition>:<service>:<region>::<resource>\<close> (empty account) exactly when the
  partition has 1 to 63 code units, service and region at most 63, and the resource has 1
  to 1024 code units, does not start with \<open>/\<close> and has no line terminator after its
  first code unit, and rejects it with the destination violation otherwise. It rejects every
  string of this shape, whatever its account, whose resource starts with \<open>/\<close>, and
  every non-empty string that does not start with \<open>arn:\<close>. (Nothing is said of the
  other non-empty accounts.)
\<close>

theorem validateARN_amended:
  assumes "0x3A \<notin> set p" "0x3A \<notin> set sv" "0x3A \<notin> set rg" "0x3A \<notin> set acct"
  shows "validateARN None = Inr ()
    \<and> validateARN (Some []) = Inr ()
    \<and> (validateARN (Some (arn p sv rg [] res)) = Inr ()) =
        (1 \<le> length p \<and> length p \<le> 63 \<and> length sv \<le> 63 \<and> length rg \<le> 63
         \<and> res \<noteq> [] \<and> hd res \<noteq> 0x2F \<and> length res \<le> 1024
         \<and> (\<forall>x\<in>set (tl res). \<not> lineTerminator x))
    \<and> (validateARN (Some (arn p sv rg [] res)) \<noteq> Inr ()) =
        (validateARN (Some (arn p sv rg [] res)) = Inl AuditLogDestinationError)
    \<and> validateARN (Some (arn p sv rg acct (0x2F # res))) = Inl AuditLogDestinationError
    \<and> (s \<noteq> [] \<and> take 4 s \<noteq> str ''arn:'' \<longrightarrow> validateARN (Some s) = Inl AuditLogDestinationError)"
proof -
  have ne: "\<And>a r. arn p sv rg a r \<noteq> []" by (simp add: arn_def str_def)
  have e: "0x3A \<notin> set ([]::js_string)" by simp
  have a: "(validateARN (Some (arn p sv rg [] res)) = Inr ()) =
        (1 \<le> length p \<and> length p \<le> 63 \<and> length sv \<le> 63 \<and> length rg \<le> 63
         \<and> res \<noteq> [] \<and> hd res \<noteq> 0x2F \<and> length res \<le> 1024
         \<and> (\<forall>x\<in>set (tl res). \<not> lineTerminator x))"
    using test_regexARN_arn [OF assms(1-3) e, of res] ne by simp
  have b: "(validateARN (Some (arn p sv rg [] res)) \<noteq> Inr ()) =
        (validateARN (Some (arn p sv rg [] res)) = Inl AuditLogDestinationError)"
    using validateARN_cases [of "Some (arn p sv rg [] res)"] by auto
  have c: "validateARN (Some (arn p sv rg acct (0x2F # res))) = Inl AuditLogDestinationError"
    using test_regexARN_arn [OF assms, of "0x2F # res"] ne by simp
  have d: "s \<noteq> [] \<and> take 4 s \<noteq> str ''arn:'' \<longrightarrow> validateARN (Some s) = Inl AuditLogDestinationError"
    using test_regexARN_prefix [of s] by auto
  from a b c d show ?thesis by simp
qed

text \<open>
  The empty string, which has no \<open>arn:\<close> prefix, is accepted; an ARN with a 12-digit
  account is rejected, the pattern asking for twelve letters \<open>d\<close> there.
\<close>

theorem validateARN_counterexample:
  "validateARN (Some []) = Inr ()
   \<and> validateARN (Some (str ''arn:aws:logs:us-east-1:123456789012:log-group:fsx'')) =
       Inl AuditLogDestinationError"
  by code_simp

theorem validateARN_witness:
  "validateARN (Some (str ''arn:aws:logs:us-east-1::log-group:fsx'')) = Inr ()
   \<and> validateARN (Some (str ''arn:aws:logs:us-east-1:123456789012:/log-group'')) =
       Inl AuditLogDestinationError
   \<and> validateARN (Some (str ''aws:logs:us-east-1::log-group:fsx'')) = Inl AuditLogDestinationError"
proof -
  have h: "0x3A \<notin> set (str ''aws'')" "0x3A \<notin> set (str ''logs'')" "0x3A \<notin> set (str ''us-east-1'')"
    "0x3A \<notin> set (str ''123456789012'')"
    by (simp_all add: str_def)
  have s1: "arn (str ''aws'') (str ''logs'') (str ''us-east-1'') [] (str ''log-group:fsx'') =
    str ''arn:aws:logs:us-east-1::log-group:fsx''" by (simp add: arn_def str_def)
  have s2: "arn (str ''aws'') (str ''logs'') (str ''us-east-1'') (str ''123456789012'')
     (0x2F # str ''log-group'') = str ''arn:aws:logs:us-east-1:123456789012:/log-group''"
    by (simp add: arn_def str_def)
  have r: "1 \<le> length (str ''aws'') \<and> length (str ''aws'') \<le> 63 \<and> length (str ''logs'') \<le> 63
     \<and> length (str ''us-east-1'') \<le> 63
     \<and> str ''log-group:fsx'' \<noteq> [] \<and> hd (str ''log-group:fsx'') \<noteq> 0x2F
     \<and> length (str ''log-group:fsx'') \<le> 1024
     \<and> (\<forall>x\<in>set (tl (str ''log-group:fsx'')). \<not> lineTerminator x)"
    by (simp add: str_def lineTerminator_def)
  have n: "str ''aws:logs:us-east-1::log-group:fsx'' \<noteq> []
     \<and> take 4 (str ''aws:logs:us-east-1::log-group:fsx'') \<noteq> str ''arn:''"
    by (simp add: str_def)
  from validateARN_amended [OF h, where res = "str ''log-group:fsx''"
      and s = "str ''aws:logs:us-east-1::log-group:fsx''"]
    validateARN_amended [OF h, where res = "str ''log-group''" and s = "[]"] r n
  show ?thesis unfolding s1 s2 by blast
qed

subsection \<open>Time of day\<close>

lemma digits_lt_10: "n < 10 \<Longrightarrow> digits n = [digit n]"
  by (subst digits.simps) simp

lemma digits_lt_100: "10 \<le> n \<Longrightarrow> n < 100 \<Longrightarrow> digits n = [digit (n div 10), digit (n mod 10)]"
proof -
  assume a: "10 \<le> n" "n < 100"
  then have "n div 10 < 10" by simp
  then have "digits (n div 10) = [digit (n div 10)]" by (rule digits_lt_10)
  with a show ?thesis by (subst digits.simps) simp
qed

lemma digit_0: "digit 0 = 0x30"
  by (simp add: digit_def)

lemma getTwoDigitString_lt_100:
  assumes "0 \<le> i" "i < 100"
  shows "getTwoDigitString i = [digit (nat i div 10), digit (nat i mod 10)]"
proof (cases "nat i < 10")
  case True
  with assms have "toString i = [digit (nat i)]" by (simp add: toString_def digits_lt_10)
  with True show ?thesis by (simp add: getTwoDigitString_def digit_0)
next
  case False
  with assms have "toString i = [digit (nat i div 10), digit (nat i mod 10)]"
    by (simp add: toString_def digits_lt_100)
  then show ?thesis by (simp add: getTwoDigitString_def)
qed

lemma Number_isInteger_iff: "Number_isInteger n = (\<exists>i. n = Finite (of_int i))"
proof (cases n)
  case (Finite q)
  have "(of_int \<lfloor>q\<rfloor> = q) = (\<exists>i. q = of_int i)"
    by (metis of_int_floor_cancel Ints_of_int Ints_cases)
  with Finite show ?thesis by simp
qed simp_all

text \<open>
  A number that passes \<open>Number.isInteger\<close> is the integer \<open>integer_value\<close> reads of it.
\<close>

lemma integer_value_exact: "Number_isInteger n \<Longrightarrow> n = Finite (of_int (integer_value n))"
proof (cases n)
  case (Finite q)
  assume "Number_isInteger n"
  with Finite have "of_int \<lfloor>q\<rfloor> = q" by (simp only: Number_isInteger.simps)
  with Finite show ?thesis by (simp only: integer_value.simps)
qed (simp_all only: Number_isInteger.simps)

lemma validate_hour:
  "(validate h m = Inl HourError) = (\<not> (\<exists>i. h = Finite (of_int i) \<and> 0 \<le> i \<and> i \<le> 24))"
proof (cases "Number_isInteger h")
  case True
  then obtain i where "h = Finite (of_int i)" unfolding Number_isInteger_iff ..
  then show ?thesis by (auto simp: validate_def num_gt_def not_less)
next
  case False
  then have "validate h m = Inl HourError" by (simp add: validate_def)
  moreover from False have "\<not> (\<exists>i. h = Finite (of_int i) \<and> 0 \<le> i \<and> i \<le> 24)"
    unfolding Number_isInteger_iff by blast
  ultimately show ?thesis by simp
qed

lemma validate_minute:
  assumes "h = Finite (of_int i)" "0 \<le> i" "i \<le> 24"
  shows "(validate h m = Inl MinuteError) = (\<not> (\<exists>j. m = Finite (of_int j) \<and> 0 \<le> j \<and> j \<le> 59))"
    and "(validate h m = Inr ()) = (\<exists>j. m = Finite (of_int j) \<and> 0 \<le> j \<and> j \<le> 59)"
proof -
  have v: "validate h m = (if \<not> Number_isInteger m \<or> num_lt m (Finite 0) \<or> num_gt m (Finite 59)
      then Inl MinuteError else Inr ())"
    using assms by (simp add: validate_def num_gt_def)
  have "(\<not> Number_isInteger m \<or> num_lt m (Finite 0) \<or> num_gt m (Finite 59))
      = (\<not> (\<exists>j. m = Finite (of_int j) \<and> 0 \<le> j \<and> j \<le> 59))"
  proof (cases "Number_isInteger m")
    case True
    then obtain j where "m = Finite (of_int j)" unfolding Number_isInteger_iff ..
    then show ?thesis by (auto simp: num_gt_def not_less)
  next
    case False
    then show ?thesis unfolding Number_isInteger_iff by blast
  qed
  with v show "(validate h m = Inl MinuteError) = (\<not> (\<exists>j. m = Finite (of_int j) \<and> 0 \<le> j \<and> j \<le> 59))"
    and "(validate h m = Inr ()) = (\<exists>j. m = Finite (of_int j) \<and> 0 \<le> j \<and> j \<le> 59)"
    by auto
qed

lemma validate_ok:
  assumes "0 \<le> i" "i \<le> 24" "0 \<le> j" "j \<le> 59"
  shows "validate (Finite (of_int i)) (Finite (of_int j)) = Inr ()"
  using validate_minute(2) [OF refl assms(1,2), of "Finite (of_int j)"] assms(3,4) by blast

text \<open>
  Claim C5. For every integral hour \<open>h\<close> in \<open>[0, 24]\<close> and minute \<open>m\<close> in \<open>[0, 59]\<close>
  the constructor of the backup start time succeeds and \<open>toTimestamp\<close> returns the five
  code units \<open>HH:MM\<close>, each number written with two decimal digits; hour 5 and minute 0
  give \<open>05:00\<close>, hour 23 and minute 59 give \<open>23:59\<close>.
\<close>

theorem BackupStartTime_toTimestamp:
  assumes "0 \<le> h" "h \<le> 24" "0 \<le> m" "m \<le> 59"
  shows "\<exists>t. BackupStartTime_new \<lparr>hour = Finite (of_int h), minute = Finite (of_int m)\<rparr> = Inr t
    \<and> toTimestamp t =
        [digit (nat h div 10), digit (nat h mod 10), 0x3A, digit (nat m div 10), digit (nat m mod 10)]
    \<and> length (toTimestamp t) = 5"
proof -
  from assms have h: "getTwoDigitString h = [digit (nat h div 10), digit (nat h mod 10)]"
    by (intro getTwoDigitString_lt_100) simp_all
  from assms have m: "getTwoDigitString m = [digit (nat m div 10), digit (nat m mod 10)]"
    by (intro getTwoDigitString_lt_100) simp_all
  from validate_ok [OF assms] h m show ?thesis
    by (simp add: BackupStartTime_new_def toTimestamp_def str_def)
qed

theorem BackupStartTime_toTimestamp_witness:
  "(\<exists>t. BackupStartTime_new \<lparr>hour = Finite 5, minute = Finite 0\<rparr> = Inr t
       \<and> toTimestamp t = str ''05:00'')
   \<and> (\<exists>t. BackupStartTime_new \<lparr>hour = Finite 23, minute = Finite 59\<rparr> = Inr t
       \<and> toTimestamp t = str ''23:59'')
   \<and> (\<exists>t. BackupStartTime_new \<lparr>hour = Finite 24, minute = Finite 0\<rparr> = Inr t
       \<and> toTimestamp t = str ''24:00'')"
proof -
  have a: "\<exists>t. BackupStartTime_new \<lparr>hour = Finite 5, minute = Finite 0\<rparr> = Inr t
       \<and> toTimestamp t = str ''05:00''"
    using BackupStartTime_toTimestamp [of 5 0] by (auto simp: digit_def str_def)
  have b: "\<exists>t. BackupStartTime_new \<lparr>hour = Finite 23, minute = Finite 59\<rparr> = Inr t
       \<and> toTimestamp t = str ''23:59''"
    using BackupStartTime_toTimestamp [of 23 59] by (auto simp: digit_def str_def)
  have c: "\<exists>t. BackupStartTime_new \<lparr>hour = Finite 24, minute = Finite 0\<rparr> = Inr t
       \<and> toTimestamp t = str ''24:00''"
    using BackupStartTime_toTimestamp [of 24 0] by (auto simp: digit_def str_def)
  from a b c show ?thesis by blast
qed

text \<open>
  Claim C6, as amended. The constructor fails with the violation that names the hour
  whenever the hour is not an integer of \<open>[0, 24]\<close> (so for -1, 25, a fraction, \<open>NaN\<close>),
  whatever the minute; it fails with the violation that names the minute whenever the hour
  is an integer of \<open>[0, 24]\<close> and the minute is not an integer of \<open>[0, 59]\<close>; it
  succeeds for every integral hour of \<open>[0, 24]\<close>, 24 included, with an integral minute of
  \<open>[0, 59]\<close>.
\<close>

theorem BackupStartTime_new_validation:
  "(\<not> (\<exists>i. h = Finite (of_int i) \<and> 0 \<le> i \<and> i \<le> 24)
      \<longrightarrow> validate h m = Inl HourError
        \<and> BackupStartTime_new \<lparr>hour = h, minute = m\<rparr> = Inl HourError)
   \<and> ((\<exists>i. h = Finite (of_int i) \<and> 0 \<le> i \<and> i \<le> 24)
        \<and> \<not> (\<exists>j. m = Finite (of_int j) \<and> 0 \<le> j \<and> j \<le> 59)
      \<longrightarrow> validate h m = Inl MinuteError
        \<and> BackupStartTime_new \<lparr>hour = h, minute = m\<rparr> = Inl MinuteError)
   \<and> ((\<exists>i. h = Finite (of_int i) \<and> 0 \<le> i \<and> i \<le> 24)
        \<and> (\<exists>j. m = Finite (of_int j) \<and> 0 \<le> j \<and> j \<le> 59)
      \<longrightarrow> validate h m = Inr ()
        \<and> (\<exists>t. BackupStartTime_new \<lparr>hour = h, minute = m\<rparr> = Inr t))"
proof (intro conjI impI)
  assume a: "\<not> (\<exists>i. h = Finite (of_int i) \<and> 0 \<le> i \<and> i \<le> 24)"
  with validate_hour [of h m] show v: "validate h m = Inl HourError" by blast
  then show "BackupStartTime_new \<lparr>hour = h, minute = m\<rparr> = Inl HourError"
    by (simp add: BackupStartTime_new_def)
next
  assume a: "(\<exists>i. h = Finite (of_int i) \<and> 0 \<le> i \<and> i \<le> 24)
        \<and> \<not> (\<exists>j. m = Finite (of_int j) \<and> 0 \<le> j \<and> j \<le> 59)"
  then obtain i where i: "h = Finite (of_int i)" "0 \<le> i" "i \<le> 24" by blast
  from a validate_minute(1) [OF i] show v: "validate h m = Inl MinuteError" by blast
  then show "BackupStartTime_new \<lparr>hour = h, minute = m\<rparr> = Inl MinuteError"
    by (simp add: BackupStartTime_new_def)
next
  assume a: "(\<exists>i. h = Finite (of_int i) \<and> 0 \<le> i \<and> i \<le> 24)
        \<and> (\<exists>j. m = Finite (of_int j) \<and> 0 \<le> j \<and> j \<le> 59)"
  then obtain i where i: "h = Finite (of_int i)" "0 \<le> i" "i \<le> 24" by blast
  from a validate_minute(2) [OF i] show v: "validate h m = Inr ()" by blast
  then show "\<exists>t. BackupStartTime_new \<lparr>hour = h, minute = m\<rparr> = Inr t"
    by (simp add: BackupStartTime_new_def)
qed

text \<open>
  With an hour and a minute both out of range, the violation names the hour and not the
  minute: the hour is checked first.
\<close>

theorem BackupStartTime_new_hour_first:
  "BackupStartTime_new \<lparr>hour = Finite 25, minute = Finite 60\<rparr> = Inl HourError
   \<and> BackupStartTime_new \<lparr>hour = Finite 25, minute = Finite 60\<rparr> \<noteq> Inl MinuteError"
  by (simp add: BackupStartTime_new_def validate_def num_gt_def)

lemma not_int_range:
  "(\<exists>i. Finite q = Finite (of_int i) \<and> lo \<le> i \<and> i \<le> hi) =
     (of_int \<lfloor>q\<rfloor> = q \<and> lo \<le> \<lfloor>q\<rfloor> \<and> \<lfloor>q\<rfloor> \<le> hi)"
  by (metis number.inject of_int_floor_cancel floor_of_int)

theorem BackupStartTime_new_validation_witness:
  "BackupStartTime_new \<lparr>hour = Finite (- 1), minute = Finite 0\<rparr> = Inl HourError
   \<and> BackupStartTime_new \<lparr>hour = Finite 25, minute = Finite 0\<rparr> = Inl HourError
   \<and> BackupStartTime_new \<lparr>hour = Finite (6 / 5), minute = Finite 0\<rparr> = Inl HourError
   \<and> BackupStartTime_new \<lparr>hour = NaN, minute = Finite 0\<rparr> = Inl HourError
   \<and> BackupStartTime_new \<lparr>hour = Finite 0, minute = Finite (- 1)\<rparr> = Inl MinuteError
   \<and> BackupStartTime_new \<lparr>hour = Finite 0, minute = Finite 60\<rparr> = Inl MinuteError
   \<and> BackupStartTime_new \<lparr>hour = Finite 0, minute = Finite (6 / 5)\<rparr> = Inl MinuteError
   \<and> (\<exists>t. BackupStartTime_new \<lparr>hour = Finite 24, minute = Finite 59\<rparr> = Inr t)"
proof -
  have h0: "\<exists>i. Finite 0 = Finite (of_int i) \<and> 0 \<le> i \<and> i \<le> 24"
    by (rule exI [of _ 0]) simp
  have h24: "\<exists>i. Finite 24 = Finite (of_int i) \<and> 0 \<le> i \<and> i \<le> 24"
    by (rule exI [of _ 24]) simp
  have m59: "\<exists>j. Finite 59 = Finite (of_int j) \<and> 0 \<le> j \<and> j \<le> 59"
    by (rule exI [of _ 59]) simp
  have n1: "\<not> (\<exists>i. Finite (- 1) = Finite (of_int i) \<and> 0 \<le> i \<and> i \<le> 24)"
    unfolding not_int_range by simp
  have n2: "\<not> (\<exists>i. Finite 25 = Finite (of_int i) \<and> 0 \<le> i \<and> i \<le> 24)"
    unfolding not_int_range by simp
  have fl: "\<lfloor>6 / 5 :: rat\<rfloor> = 1" by (rule floor_unique) simp_all
  have n3: "\<not> (\<exists>i. Finite (6 / 5) = Finite (of_int i) \<and> 0 \<le> i \<and> i \<le> 24)"
    unfolding not_int_range fl by simp
  have n4: "\<not> (\<exists>i. NaN = Finite (of_int i) \<and> 0 \<le> i \<and> i \<le> 24)"
    by simp
  have n5: "\<not> (\<exists>j. Finite (- 1) = Finite (of_int j) \<and> 0 \<le> j \<and> j \<le> 59)"
    unfolding not_int_range by simp
  have n6: "\<not> (\<exists>j. Finite 60 = Finite (of_int j) \<and> 0 \<le> j \<and> j \<le> 59)"
    unfolding not_int_range by simp
  have n7: "\<not> (\<exists>j. Finite (6 / 5) = Finite (of_int j) \<and> 0 \<le> j \<and> j \<le> 59)"
    unfolding not_int_range fl by simp
  have a: "BackupStartTime_new \<lparr>hour = Finite (- 1), minute = Finite 0\<rparr> = Inl HourError"
    using BackupStartTime_new_validation [of "Finite (- 1)" "Finite 0"] n1 by blast
  have b: "BackupStartTime_new \<lparr>hour = Finite 25, minute = Finite 0\<rparr> = Inl HourError"
    using BackupStartTime_new_validation [of "Finite 25" "Finite 0"] n2 by blast
  have c: "BackupStartTime_new \<lparr>hour = Finite (6 / 5), minute = Finite 0\<rparr> = Inl HourError"
    using BackupStartTime_new_validation [of "Finite (6 / 5)" "Finite 0"] n3 by blast
  have d: "BackupStartTime_new \<lparr>hour = NaN, minute = Finite 0\<rparr> = Inl HourError"
    using BackupStartTime_new_validation [of NaN "Finite 0"] n4 by blast
  have e: "BackupStartTime_new \<lparr>hour = Finite 0, minute = Finite (- 1)\<rparr> = Inl MinuteError"
    using BackupStartTime_new_validation [of "Finite 0" "Finite (- 1)"] h0 n5 by blast
  have f: "BackupStartTime_new \<lparr>hour = Finite 0, minute = Finite 60\<rparr> = Inl MinuteError"
    using BackupStartTime_new_validation [of "Finite 0" "Finite 60"] h0 n6 by blast
  have g: "BackupStartTime_new \<lparr>hour = Finite 0, minute = Finite (6 / 5)\<rparr> = Inl MinuteError"
    using BackupStartTime_new_validation [of "Finite 0" "Finite (6 / 5)"] h0 n7 by blast
  have i: "\<exists>t. BackupStartTime_new \<lparr>hour = Finite 24, minute = Finite 59\<rparr> = Inr t"
    using BackupStartTime_new_validation [of "Finite 24" "Finite 59"] h24 m59 by blast
  from a b c d e f g i show ?thesis by blast
qed

text \<open>
  Claim C4. For every weekday \<open>d\<close>, integral hour \<open>h\<close> in \<open>[0, 24]\<close> and minute \<open>m\<close> in
  \<open>[0, 59]\<close> the maintenance time is built and its timestamp is \<open>D:HH:MM\<close>: the single
  digit of the weekday index (1 + the position of \<open>d\<close> in the week that starts at Monday,
  so Monday = 1 to Sunday = 7), then hour and minute with two digits each. The examples
  (Sunday, 0, 0), (Saturday, 0, 0) and (Sunday, 24, 0) give \<open>7:00:00\<close>, \<open>6:00:00\<close> and
  \<open>7:24:00\<close>.
\<close>

theorem MaintenanceTime_toTimestamp_format:
  assumes "0 \<le> h" "h \<le> 24" "0 \<le> m" "m \<le> 59"
  shows "\<exists>t. MaintenanceTime_new \<lparr>hour = Finite (of_int h), minute = Finite (of_int m), day = d\<rparr> = Inr t
    \<and> MaintenanceTime_toTimestamp t =
        [digit (weekday_index d), 0x3A, digit (nat h div 10), digit (nat h mod 10), 0x3A,
         digit (nat m div 10), digit (nat m mod 10)]
    \<and> 1 \<le> weekday_index d \<and> weekday_index d \<le> 7
    \<and> weekday_index d = 1 + length (takeWhile (\<lambda>x. x \<noteq> d)
         [MONDAY, TUESDAY, WEDNESDAY, THURSDAY, FRIDAY, SATURDAY, SUNDAY])"
proof -
  from assms have h: "getTwoDigitString h = [digit (nat h div 10), digit (nat h mod 10)]"
    by (intro getTwoDigitString_lt_100) simp_all
  from assms have m: "getTwoDigitString m = [digit (nat m div 10), digit (nat m mod 10)]"
    by (intro getTwoDigitString_lt_100) simp_all
  have w: "1 \<le> weekday_index d \<and> weekday_index d \<le> 7
    \<and> weekday_index d = 1 + length (takeWhile (\<lambda>x. x \<noteq> d)
         [MONDAY, TUESDAY, WEDNESDAY, THURSDAY, FRIDAY, SATURDAY, SUNDAY])" by (cases d) simp_all
  then have "weekday_index d < 10" by simp
  then have "toString (int (weekday_index d)) = [digit (weekday_index d)]"
    by (simp add: toString_def digits_lt_10)
  with validate_ok [OF assms] h m w show ?thesis
    by (simp add: MaintenanceTime_new_def MaintenanceTime_toTimestamp_def str_def)
qed

theorem MaintenanceTime_toTimestamp_witness:
  "(\<exists>t. MaintenanceTime_new \<lparr>hour = Finite 0, minute = Finite 0, day = SUNDAY\<rparr> = Inr t
       \<and> MaintenanceTime_toTimestamp t = str ''7:00:00'')
   \<and> (\<exists>t. MaintenanceTime_new \<lparr>hour = Finite 0, minute = Finite 0, day = SATURDAY\<rparr> = Inr t
       \<and> MaintenanceTime_toTimestamp t = str ''6:00:00'')
   \<and> (\<exists>t. MaintenanceTime_new \<lparr>hour = Finite 24, minute = Finite 0, day = SUNDAY\<rparr> = Inr t
       \<and> MaintenanceTime_toTimestamp t = str ''7:24:00'')
   \<and> (\<exists>t. MaintenanceTime_new \<lparr>hour = Finite 0, minute = Finite 59, day = SUNDAY\<rparr> = Inr t
       \<and> MaintenanceTime_toTimestamp t = str ''7:00:59'')"
proof -
  have a: "\<exists>t. MaintenanceTime_new \<lparr>hour = Finite 0, minute = Finite 0, day = SUNDAY\<rparr> = Inr t
       \<and> MaintenanceTime_toTimestamp t = str ''7:00:00''"
    using MaintenanceTime_toTimestamp_format [of 0 0 SUNDAY] by (auto simp: digit_def str_def)
  have b: "\<exists>t. MaintenanceTime_new \<lparr>hour = Finite 0, minute = Finite 0, day = SATURDAY\<rparr> = Inr t
       \<and> MaintenanceTime_toTimestamp t = str ''6:00:00''"
    using MaintenanceTime_toTimestamp_format [of 0 0 SATURDAY] by (auto simp: digit_def str_def)
  have c: "\<exists>t. MaintenanceTime_new \<lparr>hour = Finite 24, minute = Finite 0, day = SUNDAY\<rparr> = Inr t
       \<and> MaintenanceTime_toTimestamp t = str ''7:24:00''"
    using MaintenanceTime_toTimestamp_format [of 24 0 SUNDAY] by (auto simp: digit_def str_def)
  have d: "\<exists>t. MaintenanceTime_new \<lparr>hour = Finite 0, minute = Finite 59, day = SUNDAY\<rparr> = Inr t
       \<and> MaintenanceTime_toTimestamp t = str ''7:00:59''"
    using MaintenanceTime_toTimestamp_format [of 0 59 SUNDAY] by (auto simp: digit_def str_def)
  from a b c d show ?thesis by blast
qed

subsection \<open>Construction\<close>

lemma andThen_Inr: "(andThen a b = Inr ()) = (a = Inr () \<and> b = Inr ())"
  by (cases a) (simp_all add: andThen_def)

lemma andThen_Inl: "a = Inl e \<Longrightarrow> andThen a b = Inl e"
  by (simp add: andThen_def)

lemma not_Inr_unit: "(r \<noteq> Inr ()) = (\<exists>e. r = Inl e)" for r :: "error + unit"
  by (cases r) simp_all

lemma validateProps_Inr:
  "(validateProps props = Inr ()) =
    (validateActiveDirectoryId (activeDirectoryId (windowsConfiguration props)) = Inr ()
     \<and> validateThroughputCapacity (throughputCapacity (windowsConfiguration props)) = Inr ()
     \<and> validateAliases (aliases (windowsConfiguration props)) = Inr ()
     \<and> validatePreferredSubnetId (deploymentType (windowsConfiguration props))
          (preferredSubnetId (windowsConfiguration props)) = Inr ()
     \<and> validateDnsIps (Option.bind
          (selfManagedActiveDirectoryConfiguration (windowsConfiguration props)) dnsIps) = Inr ()
     \<and> validateDomainName (Option.bind
          (selfManagedActiveDirectoryConfiguration (windowsConfiguration props)) domainName) = Inr ()
     \<and> validateFileSystemAdministratorsGroup (Option.bind
          (selfManagedActiveDirectoryConfiguration (windowsConfiguration props))
          fileSystemAdministratorsGroup) = Inr ()
     \<and> validateOrganizationalUnitDistinguishedName (Option.bind
          (selfManagedActiveDirectoryConfiguration (windowsConfiguration props))
          organizationalUnitDistinguishedName) = Inr ()
     \<and> validatePassword (Option.bind
          (selfManagedActiveDirectoryConfiguration (windowsConfiguration props)) password) = Inr ()
     \<and> validateUsername (Option.bind
          (selfManagedActiveDirectoryConfiguration (windowsConfiguration props)) username) = Inr ()
     \<and> validateARN (Option.bind (auditLogConfiguration (windowsConfiguration props))
          auditLogDestination) = Inr ())"
  by (simp only: validateProps_def Let_def andThen_Inr)

lemma WindowsFileSystem_new_Inl:
  "validateProps props = Inl e \<Longrightarrow> WindowsFileSystem_new env ident props = ([Super ident], Inl e)"
  by (simp add: WindowsFileSystem_new_def)

text \<open>
  Once the validation has passed, the constructor does act: it returns a file system, creates
  the resource, adds the ingress rule and, when no security group was given, allocates one.
\<close>

lemma WindowsFileSystem_new_Inr:
  assumes "validateProps props = Inr ()"
  shows "\<exists>h. snd (WindowsFileSystem_new env ident props) = Inr h"
    and "\<exists>c. NewCfnFileSystem ''Resource'' c \<in> set (fst (WindowsFileSystem_new env ident props))"
    and "\<exists>sg. AddIngressRule sg sg (TcpRange 988 1023) \<in> set (fst (WindowsFileSystem_new env ident props))"
    and "securityGroup props = None \<Longrightarrow>
      NewSecurityGroup ''FsxWindowsSecurityGroup'' (vpc props) \<in> set (fst (WindowsFileSystem_new env ident props))"
  using assms by (simp_all add: WindowsFileSystem_new_def Let_def DEFAULT_PORT_RANGE_def)

text \<open>
  Claim C9. For every configuration on which one of the validators fails, the constructor
  of \<open>src/unnamed/part_000\<close> raises the error of the validation and has done nothing but
  call the constructor of its base class: no security group is allocated, no ingress rule
  is added, no resource with its property tree is created and no removal policy is
  applied. All validation comes before all assembly.
\<close>

theorem WindowsFileSystem_new_validation_first:
  assumes "validateActiveDirectoryId (activeDirectoryId (windowsConfiguration props)) \<noteq> Inr ()
     \<or> validateThroughputCapacity (throughputCapacity (windowsConfiguration props)) \<noteq> Inr ()
     \<or> validateAliases (aliases (windowsConfiguration props)) \<noteq> Inr ()
     \<or> validatePreferredSubnetId (deploymentType (windowsConfiguration props))
          (preferredSubnetId (windowsConfiguration props)) \<noteq> Inr ()
     \<or> validateDnsIps (Option.bind
          (selfManagedActiveDirectoryConfiguration (windowsConfiguration props)) dnsIps) \<noteq> Inr ()
     \<or> validateDomainName (Option.bind
          (selfManagedActiveDirectoryConfiguration (windowsConfiguration props)) domainName) \<noteq> Inr ()
     \<or> validateFileSystemAdministratorsGroup (Option.bind
          (selfManagedActiveDirectoryConfiguration (windowsConfiguration props))
          fileSystemAdministratorsGroup) \<noteq> Inr ()
     \<or> validateOrganizationalUnitDistinguishedName (Option.bind
          (selfManagedActiveDirectoryConfiguration (windowsConfiguration props))
          organizationalUnitDistinguishedName) \<noteq> Inr ()
     \<or> validatePassword (Option.bind
          (selfManagedActiveDirectoryConfiguration (windowsConfiguration props)) password) \<noteq> Inr ()
     \<or> validateUsername (Option.bind
          (selfManagedActiveDirectoryConfiguration (windowsConfiguration props)) username) \<noteq> Inr ()
     \<or> validateARN (Option.bind (auditLogConfiguration (windowsConfiguration props))
          auditLogDestination) \<noteq> Inr ()"
  shows "\<exists>e. validateProps props = Inl e
     \<and> WindowsFileSystem_new env ident props = ([Super ident], Inl e)
     \<and> NewSecurityGroup n v \<notin> set (fst (WindowsFileSystem_new env ident props))
     \<and> AddIngressRule a b p \<notin> set (fst (WindowsFileSystem_new env ident props))
     \<and> NewCfnFileSystem r c \<notin> set (fst (WindowsFileSystem_new env ident props))
     \<and> ApplyRemovalPolicy k \<notin> set (fst (WindowsFileSystem_new env ident props))"
proof -
  from assms have "validateProps props \<noteq> Inr ()"
    unfolding validateProps_Inr by blast
  then obtain e where e: "validateProps props = Inl e" unfolding not_Inr_unit ..
  from WindowsFileSystem_new_Inl [OF e, of env ident] e show ?thesis by simp
qed

theorem WindowsFileSystem_new_validation_first_witness:
  "WindowsFileSystem_new
     \<lparr>newSecurityGroup = str ''sg-new'', ref = str ''fs-1'', region = str ''eu-central-1'',
      URL_SUFFIX = str ''amazonaws.com''\<rparr>
     (str ''FsxFileSystem'')
     \<lparr>windowsConfiguration =
        \<lparr>deploymentType = SINGLE_AZ_1, activeDirectoryId = None, aliases = None,
         auditLogConfiguration = None, automaticBackupRetentionDays = None,
         copyTagsToBackups = None, dailyAutomaticBackupStartTime = None,
         preferredSubnetId = None, selfManagedActiveDirectoryConfiguration = None,
         storageType = Some SSD, throughputCapacity = Finite 9,
         weeklyMaintenanceStartTime = None\<rparr>,
      vpcSubnet = \<lparr>subnetId = str ''subnet-1''\<rparr>, securityGroup = None, vpc = str ''vpc-1'',
      backupId = None, kmsKey = None, storageCapacityGiB = Finite 1200, removalPolicy = None\<rparr>
   = ([Super (str ''FsxFileSystem'')], Inl ThroughputCapacityError)"
proof -
  let ?cfg = "\<lparr>deploymentType = SINGLE_AZ_1, activeDirectoryId = None, aliases = None,
         auditLogConfiguration = None, automaticBackupRetentionDays = None,
         copyTagsToBackups = None, dailyAutomaticBackupStartTime = None,
         preferredSubnetId = None, selfManagedActiveDirectoryConfiguration = None,
         storageType = Some SSD, throughputCapacity = Finite 9,
         weeklyMaintenanceStartTime = None\<rparr> :: (BackupStartTime, MaintenanceTime) WindowsConfiguration"
  let ?props = "\<lparr>windowsConfiguration = ?cfg,
      vpcSubnet = \<lparr>subnetId = str ''subnet-1''\<rparr>, securityGroup = None, vpc = str ''vpc-1'',
      backupId = None, kmsKey = None, storageCapacityGiB = Finite 1200, removalPolicy = None\<rparr>"
  have t: "validateThroughputCapacity (Finite 9) = Inl ThroughputCapacityError"
    by (rule validateThroughputCapacity_tests)
  then have f: "validateThroughputCapacity (throughputCapacity (windowsConfiguration ?props)) \<noteq> Inr ()"
    by simp
  have v: "validateProps ?props = Inl ThroughputCapacityError"
    using t by (simp add: validateProps_def andThen_def validatePreferredSubnetId_def)
  from WindowsFileSystem_new_validation_first [where props = ?props, OF disjI2, OF disjI1, OF f] v
  show ?thesis by auto
qed

text \<open>
  Claim C10. For all attributes (DNS name, file system id, security group) the import of an
  existing file system never fails, so no validator stands in its way, and allocates no
  security group, adds no ingress rule and creates no resource: it calls the constructor
  of the base class and returns a handle whose \<open>dnsName\<close> and \<open>fileSystemId\<close> are the
  attributes as given and whose connections hold exactly the security group given, on the
  port range 988 to 1023.
\<close>

theorem fromWindowsFileSystemAttributes_adopts:
  "\<exists>h. fromWindowsFileSystemAttributes ident attrs = ([Super ident], Inr h)
     \<and> dnsName h = attr_dnsName attrs
     \<and> fileSystemId h = attr_fileSystemId attrs
     \<and> connections h =
         \<lparr>securityGroups = [attr_securityGroup attrs], defaultPort = TcpRange 988 1023\<rparr>
     \<and> NewSecurityGroup n v \<notin> set (fst (fromWindowsFileSystemAttributes ident attrs))
     \<and> AddIngressRule a b p \<notin> set (fst (fromWindowsFileSystemAttributes ident attrs))
     \<and> NewCfnFileSystem r c \<notin> set (fst (fromWindowsFileSystemAttributes ident attrs))"
  by (simp add: fromWindowsFileSystemAttributes_def configureConnections_def DEFAULT_PORT_RANGE_def)

theorem fromWindowsFileSystemAttributes_witness:
  "fromWindowsFileSystemAttributes (str ''Imported'')
     \<lparr>attr_dnsName = str ''fs-1.fsx.eu-central-1.amazonaws.com'',
      attr_fileSystemId = str ''fs-1'', attr_securityGroup = str ''sg-1''\<rparr>
   = ([Super (str ''Imported'') :: (js_string, js_string) WindowsConfiguration event],
      Inr \<lparr>connections = \<lparr>securityGroups = [str ''sg-1''], defaultPort = TcpRange 988 1023\<rparr>,
           dnsName = str ''fs-1.fsx.eu-central-1.amazonaws.com'', fileSystemId = str ''fs-1''\<rparr>)"
proof -
  let ?attrs = "\<lparr>attr_dnsName = str ''fs-1.fsx.eu-central-1.amazonaws.com'',
      attr_fileSystemId = str ''fs-1'', attr_securityGroup = str ''sg-1''\<rparr>"
  from fromWindowsFileSystemAttributes_adopts [of "str ''Imported''" ?attrs]
  obtain h where h: "fromWindowsFileSystemAttributes (str ''Imported'') ?attrs
      = ([Super (str ''Imported'') :: (js_string, js_string) WindowsConfiguration event], Inr h)"
    "dnsName h = attr_dnsName ?attrs" "fileSystemId h = attr_fileSystemId ?attrs"
    "connections h = \<lparr>securityGroups = [attr_securityGroup ?attrs], defaultPort = TcpRange 988 1023\<rparr>"
    by blast
  have "h = \<lparr>connections = \<lparr>securityGroups = [str ''sg-1''], defaultPort = TcpRange 988 1023\<rparr>,
           dnsName = str ''fs-1.fsx.eu-central-1.amazonaws.com'', fileSystemId = str ''fs-1''\<rparr>"
    using h(2-4) by (intro FileSystem.equality) simp_all
  with h(1) show ?thesis by simp
qed

subsection \<open>Storage capacity\<close>

lemma validateStorageCapacity_Finite:
  "validateStorageCapacity (Finite q) =
     (if 32 \<le> q \<and> q \<le> 65536 then Inr () else Inl StorageCapacityError)"
  by (auto simp: validateStorageCapacity_def num_gt_def)

lemma validateProps_storage:
  "validateProps (p\<lparr>storageCapacityGiB := s\<rparr>) = validateProps p"
  by (simp add: validateProps_def)

text \<open>
  Claim C1, as amended. In \<open>lib/windows-file-system.ts\<close> the validation runs the throughput
  validator, then the storage validator, before any assembly. The storage validator
  accepts a finite \<open>s\<close> exactly when \<open>32 \<le> s \<le> 65536\<close>, integer or not, and rejects the
  two infinities; construction there fails with the throughput violation when the throughput
  is wrong, with the storage violation when the throughput passes and the storage is
  rejected, and succeeds when both pass; a failure leaves nothing done but the call of the
  base class constructor. In \<open>src/unnamed/part_000\<close> the validation runs the eleven other
  validators and no storage check: its outcome does not depend on the storage capacity, and
  construction succeeds with any storage capacity once the eleven pass.
\<close>

theorem storage_capacity_validation:
  "validateStorageCapacity (Finite q) =
      (if 32 \<le> q \<and> q \<le> 65536 then Inr () else Inl StorageCapacityError)
   \<and> validateStorageCapacity PosInfinity = Inl StorageCapacityError
   \<and> validateStorageCapacity NegInfinity = Inl StorageCapacityError
   \<and> (validateThroughputCapacity (throughputCapacity (windowsConfiguration p)) = Inl ThroughputCapacityError
        \<longrightarrow> WindowsFileSystem_new_lib env ident p = ([Super ident], Inl ThroughputCapacityError))
   \<and> (validateThroughputCapacity (throughputCapacity (windowsConfiguration p)) = Inr ()
        \<and> validateStorageCapacity (storageCapacityGiB p) = Inl StorageCapacityError
        \<longrightarrow> WindowsFileSystem_new_lib env ident p = ([Super ident], Inl StorageCapacityError))
   \<and> (validateThroughputCapacity (throughputCapacity (windowsConfiguration p)) = Inr ()
        \<and> validateStorageCapacity (storageCapacityGiB p) = Inr ()
        \<longrightarrow> (\<exists>h. snd (WindowsFileSystem_new_lib env ident p) = Inr h))
   \<and> validateProps (p\<lparr>storageCapacityGiB := s\<rparr>) = validateProps p
   \<and> (validateProps p' = Inr ()
        \<longrightarrow> (\<exists>h. snd (WindowsFileSystem_new env ident (p'\<lparr>storageCapacityGiB := s\<rparr>)) = Inr h))"
proof -
  have a: "validateStorageCapacity PosInfinity = Inl StorageCapacityError"
    "validateStorageCapacity NegInfinity = Inl StorageCapacityError"
    by (simp_all add: validateStorageCapacity_def num_gt_def)
  have b: "validateThroughputCapacity (throughputCapacity (windowsConfiguration p)) = Inl ThroughputCapacityError
        \<longrightarrow> WindowsFileSystem_new_lib env ident p = ([Super ident], Inl ThroughputCapacityError)"
    by (simp add: WindowsFileSystem_new_lib_def validateProps_lib_def andThen_def)
  have c: "validateThroughputCapacity (throughputCapacity (windowsConfiguration p)) = Inr ()
        \<and> validateStorageCapacity (storageCapacityGiB p) = Inl StorageCapacityError
        \<longrightarrow> WindowsFileSystem_new_lib env ident p = ([Super ident], Inl StorageCapacityError)"
    by (simp add: WindowsFileSystem_new_lib_def validateProps_lib_def andThen_def)
  have d: "validateThroughputCapacity (throughputCapacity (windowsConfiguration p)) = Inr ()
        \<and> validateStorageCapacity (storageCapacityGiB p) = Inr ()
        \<longrightarrow> (\<exists>h. snd (WindowsFileSystem_new_lib env ident p) = Inr h)"
    by (simp add: WindowsFileSystem_new_lib_def validateProps_lib_def andThen_def Let_def)
  have e: "validateProps p' = Inr ()
        \<longrightarrow> (\<exists>h. snd (WindowsFileSystem_new env ident (p'\<lparr>storageCapacityGiB := s\<rparr>)) = Inr h)"
    using WindowsFileSystem_new_Inr(1) [of "p'\<lparr>storageCapacityGiB := s\<rparr>" env ident]
    by (simp only: validateProps_storage) blast
  from a b c d e validateStorageCapacity_Finite [of q] validateProps_storage [where p = p and s = s]
  show ?thesis by (simp only:)
qed

text \<open>
  The storage validator accepts 32.5, which is no integer; and the constructor of
  \<open>src/unnamed/part_000\<close> succeeds with a storage capacity of 5.
\<close>

theorem storage_capacity_counterexample:
  "validateStorageCapacity (Finite (65 / 2)) = Inr ()
   \<and> (\<exists>h. snd (WindowsFileSystem_new
     \<lparr>newSecurityGroup = str ''sg-new'', ref = str ''fs-1'', region = str ''eu-central-1'',
      URL_SUFFIX = str ''amazonaws.com''\<rparr>
     (str ''FsxFileSystem'')
     \<lparr>windowsConfiguration =
        \<lparr>deploymentType = SINGLE_AZ_1, activeDirectoryId = None, aliases = None,
         auditLogConfiguration = None, automaticBackupRetentionDays = None,
         copyTagsToBackups = None, dailyAutomaticBackupStartTime = None,
         preferredSubnetId = None, selfManagedActiveDirectoryConfiguration = None,
         storageType = Some SSD, throughputCapacity = Finite 8,
         weeklyMaintenanceStartTime = None\<rparr>,
      vpcSubnet = \<lparr>subnetId = str ''subnet-1''\<rparr>, securityGroup = None, vpc = str ''vpc-1'',
      backupId = None, kmsKey = None, storageCapacityGiB = Finite 5, removalPolicy = None\<rparr>) = Inr h)"
proof -
  have t: "validateThroughputCapacity (Finite 8) = Inr ()"
    by (rule validateThroughputCapacity_tests)
  have a: "validateStorageCapacity (Finite (65 / 2)) = Inr ()"
    by (simp add: validateStorageCapacity_def num_gt_def)
  show ?thesis
    using t a
    by (simp add: WindowsFileSystem_new_def validateProps_def andThen_def Let_def
        validatePreferredSubnetId_def)
qed

theorem storage_capacity_validation_witness:
  "validateStorageCapacity (Finite 5) = Inl StorageCapacityError
   \<and> validateStorageCapacity (Finite 1200) = Inr ()
   \<and> WindowsFileSystem_new_lib
     \<lparr>newSecurityGroup = str ''sg-new'', ref = str ''fs-1'', region = str ''eu-central-1'',
      URL_SUFFIX = str ''amazonaws.com''\<rparr>
     (str ''FsxFileSystem'')
     \<lparr>windowsConfiguration =
        \<lparr>deploymentType = SINGLE_AZ_1, activeDirectoryId = None, aliases = None,
         auditLogConfiguration = None, automaticBackupRetentionDays = None,
         copyTagsToBackups = None, dailyAutomaticBackupStartTime = None :: BackupStartTime option,
         preferredSubnetId = None, selfManagedActiveDirectoryConfiguration = None,
         storageType = Some SSD, throughputCapacity = Finite 8,
         weeklyMaintenanceStartTime = None :: MaintenanceTime option\<rparr>,
      vpcSubnet = \<lparr>subnetId = str ''subnet-1''\<rparr>, securityGroup = None, vpc = str ''vpc-1'',
      backupId = None, kmsKey = None, storageCapacityGiB = Finite 5, removalPolicy = None\<rparr>
    = ([Super (str ''FsxFileSystem'')], Inl StorageCapacityError)
   \<and> WindowsFileSystem_new_lib
     \<lparr>newSecurityGroup = str ''sg-new'', ref = str ''fs-1'', region = str ''eu-central-1'',
      URL_SUFFIX = str ''amazonaws.com''\<rparr>
     (str ''FsxFileSystem'')
     \<lparr>windowsConfiguration =
        \<lparr>deploymentType = SINGLE_AZ_1, activeDirectoryId = None, aliases = None,
         auditLogConfiguration = None, automaticBackupRetentionDays = None,
         copyTagsToBackups = None, dailyAutomaticBackupStartTime = None :: BackupStartTime option,
         preferredSubnetId = None, selfManagedActiveDirectoryConfiguration = None,
         storageType = Some SSD, throughputCapacity = Finite 9,
         weeklyMaintenanceStartTime = None :: MaintenanceTime option\<rparr>,
      vpcSubnet = \<lparr>subnetId = str ''subnet-1''\<rparr>, securityGroup = None, vpc = str ''vpc-1'',
      backupId = None, kmsKey = None, storageCapacityGiB = Finite 5, removalPolicy = None\<rparr>
    = ([Super (str ''FsxFileSystem'')], Inl ThroughputCapacityError)
   \<and> (\<exists>h. snd (WindowsFileSystem_new_lib
     \<lparr>newSecurityGroup = str ''sg-new'', ref = str ''fs-1'', region = str ''eu-central-1'',
      URL_SUFFIX = str ''amazonaws.com''\<rparr>
     (str ''FsxFileSystem'')
     \<lparr>windowsConfiguration =
        \<lparr>deploymentType = SINGLE_AZ_1, activeDirectoryId = None, aliases = None,
         auditLogConfiguration = None, automaticBackupRetentionDays = None,
         copyTagsToBackups = None, dailyAutomaticBackupStartTime = None :: BackupStartTime option,
         preferredSubnetId = None, selfManagedActiveDirectoryConfiguration = None,
         storageType = Some SSD, throughputCapacity = Finite 8,
         weeklyMaintenanceStartTime = None :: MaintenanceTime option\<rparr>,
      vpcSubnet = \<lparr>subnetId = str ''subnet-1''\<rparr>, securityGroup = None, vpc = str ''vpc-1'',
      backupId = None, kmsKey = None, storageCapacityGiB = Finite 1200, removalPolicy = None\<rparr>) = Inr h)
   \<and> (\<exists>h. snd (WindowsFileSystem_new
     \<lparr>newSecurityGroup = str ''sg-new'', ref = str ''fs-1'', region = str ''eu-central-1'',
      URL_SUFFIX = str ''amazonaws.com''\<rparr>
     (str ''FsxFileSystem'')
     \<lparr>windowsConfiguration =
        \<lparr>deploymentType = SINGLE_AZ_1, activeDirectoryId = None, aliases = None,
         auditLogConfiguration = None, automaticBackupRetentionDays = None,
         copyTagsToBackups = None, dailyAutomaticBackupStartTime = None,
         preferredSubnetId = None, selfManagedActiveDirectoryConfiguration = None,
         storageType = Some SSD, throughputCapacity = Finite 8,
         weeklyMaintenanceStartTime = None\<rparr>,
      vpcSubnet = \<lparr>subnetId = str ''subnet-1''\<rparr>, securityGroup = None, vpc = str ''vpc-1'',
      backupId = None, kmsKey = None, storageCapacityGiB = Finite 5, removalPolicy = None\<rparr>) = Inr h)"
proof -
  let ?env = "\<lparr>newSecurityGroup = str ''sg-new'', ref = str ''fs-1'', region = str ''eu-central-1'',
      URL_SUFFIX = str ''amazonaws.com''\<rparr>"
  let ?cfg = "\<lambda>t. \<lparr>deploymentType = SINGLE_AZ_1, activeDirectoryId = None, aliases = None,
         auditLogConfiguration = None, automaticBackupRetentionDays = None,
         copyTagsToBackups = None, dailyAutomaticBackupStartTime = None :: BackupStartTime option,
         preferredSubnetId = None, selfManagedActiveDirectoryConfiguration = None,
         storageType = Some SSD, throughputCapacity = t,
         weeklyMaintenanceStartTime = None :: MaintenanceTime option\<rparr>"
  let ?p = "\<lambda>t c. \<lparr>windowsConfiguration = ?cfg t,
      vpcSubnet = \<lparr>subnetId = str ''subnet-1''\<rparr>, securityGroup = None, vpc = str ''vpc-1'',
      backupId = None, kmsKey = None, storageCapacityGiB = c, removalPolicy = None\<rparr>"
  note inst = storage_capacity_validation [where env = ?env and ident = "str ''FsxFileSystem''"]
  have t8: "validateThroughputCapacity (Finite 8) = Inr ()"
    and t9: "validateThroughputCapacity (Finite 9) = Inl ThroughputCapacityError"
    by (rule validateThroughputCapacity_tests)+
  have a: "validateStorageCapacity (Finite 5) = Inl StorageCapacityError"
    using inst [where q = 5 and p = "?p (Finite 8) (Finite 5)" and p' = "?p (Finite 8) (Finite 5)"
      and s = "Finite 5"]
    by simp
  have b: "validateStorageCapacity (Finite 1200) = Inr ()"
    using inst [where q = 1200 and p = "?p (Finite 8) (Finite 5)" and p' = "?p (Finite 8) (Finite 5)"
      and s = "Finite 5"]
    by simp
  have c: "WindowsFileSystem_new_lib ?env (str ''FsxFileSystem'') (?p (Finite 8) (Finite 5))
    = ([Super (str ''FsxFileSystem'')], Inl StorageCapacityError)"
    using inst [where q = 5 and p = "?p (Finite 8) (Finite 5)" and p' = "?p (Finite 8) (Finite 5)"
      and s = "Finite 5"] t8 a
    by simp
  have d: "WindowsFileSystem_new_lib ?env (str ''FsxFileSystem'') (?p (Finite 9) (Finite 5))
    = ([Super (str ''FsxFileSystem'')], Inl ThroughputCapacityError)"
    using inst [where q = 5 and p = "?p (Finite 9) (Finite 5)" and p' = "?p (Finite 8) (Finite 5)"
      and s = "Finite 5"] t9
    by simp
  have e: "\<exists>h. snd (WindowsFileSystem_new_lib ?env (str ''FsxFileSystem'') (?p (Finite 8) (Finite 1200)))
     = Inr h"
    using inst [where q = 5 and p = "?p (Finite 8) (Finite 1200)" and p' = "?p (Finite 8) (Finite 5)"
      and s = "Finite 5"] t8 b
    by simp
  have v: "validateProps (?p (Finite 8) (Finite 1200)) = Inr ()"
    using t8 by (simp add: validateProps_def andThen_def validatePreferredSubnetId_def)
  have f: "\<exists>h. snd (WindowsFileSystem_new ?env (str ''FsxFileSystem'') (?p (Finite 8) (Finite 5)))
     = Inr h"
    using inst [where q = 5 and p = "?p (Finite 8) (Finite 1200)" and p' = "?p (Finite 8) (Finite 1200)"
      and s = "Finite 5"] v
    by simp
  from a b c d e f show ?thesis by simp
qed

end
